theory Spec2Isabelle
  imports Complex_Main "HOL-Library.Stream"
begin

chapter \<open>Procedural geometry generators: neutron transport, fractal terrain, superquadrics\<close>

text \<open>
  The C++ sources compute with \<open>float\<close> and \<open>double\<close>. The embedding idealises both as
  \<^typ>\<open>real\<close>: rounding is left out, and every place where IEEE arithmetic leaves the reals
  (a division by zero, a function outside its domain, a comparison with NaN) is written out
  as a branch of its own where a property depends on it.

  A pseudo-random engine together with its distribution object is the stream of the values
  it returns from here on: \<open>uniform_dist(gen)\<close> reads the head of the stream and leaves the
  tail. The stream itself is fixed by the seed of the engine (\<open>std::mt19937\<close> is a
  deterministic function of its seed); where the seed comes from is part of each program.
\<close>

type_synonym vec3 = "real \<times> real \<times> real"

type_synonym rng = "real stream"

section \<open>Dynamic mode: \<open>dynamic_neutron_scene_generator.cc\<close>\<close>

subsection \<open>RandomGenerator\<close>

text \<open>\<open>float getFloat() { return uniform_dist(gen); }\<close>\<close>

definition getFloat :: "rng \<Rightarrow> real \<times> rng" where
  "getFloat g = (shd g, stl g)"

text \<open>
  \<open>randomDirection\<close>: two draws, \<open>phi\<close> first, then \<open>costheta\<close>; the direction is written
  through the pointer argument and is the first component of the result here. For a draw in
  \<open>[0, 1]\<close> the argument of \<open>std::sqrt\<close> is not negative.
\<close>

definition randomDirection :: "rng \<Rightarrow> vec3 \<times> rng" where
  "randomDirection g =
     (let (u1, g1) = getFloat g;
          phi = u1 * 2 * pi;
          (u2, g2) = getFloat g1;
          costheta = 2 * u2 - 1;
          sintheta = sqrt (1 - costheta * costheta)
      in ((sintheta * cos phi, sintheta * sin phi, costheta), g2))"

subsection \<open>Simulation parameters and tables\<close>

text \<open>
  \<open>num_neutrons\<close>, \<open>num_frames\<close> and \<open>timestep\<close> are set from the command line and are
  arguments of the functions below; the other globals are never written after their
  initialisation.
\<close>

definition max_lifetime :: real where "max_lifetime = 100"
definition absorption_probability :: real where "absorption_probability = 0.1"
definition fission_probability :: real where "fission_probability = 0.15"
definition mean_free_path :: real where "mean_free_path = 2"
definition source_radius :: real where "source_radius = 0.5"
definition max_distance :: real where "max_distance = 10"

definition NUM_ENERGY_GROUPS :: nat where "NUM_ENERGY_GROUPS = 3"

text \<open>Group 0 is Fast, 1 Epithermal, 2 Thermal: a larger index is a lower energy.\<close>

definition GROUP_ENERGIES :: "real list" where
  "GROUP_ENERGIES = [10, 5, 1]"

definition SCATTERING_PROBABILITIES :: "real list list" where
  "SCATTERING_PROBABILITIES =
     [[0.5, 0.4, 0.1],
      [0, 0.6, 0.4],
      [0, 0, 1]]"

subsection \<open>FissionEvent and Neutron\<close>

record FissionEvent =
  fe_position :: vec3
  fe_time :: real

record Neutron =
  position :: vec3
  velocity :: vec3
  energy_group :: nat
  lifetime :: real
  active :: bool

text \<open>The default constructor: an inactive neutron at the origin.\<close>

definition Neutron_default :: Neutron where
  "Neutron_default =
     \<lparr>position = (0, 0, 0), velocity = (0, 0, 0), energy_group = 0, lifetime = 0,
      active = False\<rparr>"

text \<open>\<open>Neutron::init\<close>: three draws for the position, then \<open>randomDirection\<close>.\<close>

definition init :: "Neutron \<Rightarrow> rng \<Rightarrow> Neutron \<times> rng" where
  "init n g =
     (let (u1, g1) = getFloat g;
          phi = u1 * 2 * pi;
          (u2, g2) = getFloat g1;
          costheta = 2 * u2 - 1;
          sintheta = sqrt (1 - costheta * costheta);
          (u3, g3) = getFloat g2;
          r = source_radius * (u3 powr (1 / 3));
          (dir, g4) = randomDirection g3
      in (n\<lparr>position := (r * sintheta * cos phi, r * sintheta * sin phi, r * costheta),
            velocity := dir, energy_group := 0, lifetime := 0, active := True\<rparr>, g4))"

definition initFromFission :: "Neutron \<Rightarrow> vec3 \<Rightarrow> rng \<Rightarrow> Neutron \<times> rng" where
  "initFromFission n pos g =
     (let (dir, g1) = randomDirection g
      in (n\<lparr>position := pos, velocity := dir, energy_group := 0, lifetime := 0,
            active := True\<rparr>, g1))"

subsection \<open>The simulation state\<close>

text \<open>
  \<open>Neutron::update\<close> runs on an element of the vector \<open>neutrons\<close> that it also receives by
  reference, so the fission branch walks a pool that contains the neutron being updated.
  The model therefore updates slot \<open>i\<close> of the pool inside the whole simulation state.
\<close>

record NeutronSimulation =
  neutrons :: "Neutron list"
  fission_events :: "FissionEvent list"
  simulation_time :: real
  random_gen :: rng

text \<open>
  The scattering loop
  \<^verbatim>\<open>for (target_group = 0; target_group < NUM_ENERGY_GROUPS; target_group++) {
    cumulative_prob += SCATTERING_PROBABILITIES[energy_group][target_group];
    if (scatter_r < cumulative_prob) { energy_group = target_group; break; } }\<close>
  returns the new energy group; the group is unchanged when no threshold is met.
\<close>

function scatter_loop :: "nat \<Rightarrow> real \<Rightarrow> real \<Rightarrow> nat \<Rightarrow> nat" where
  "scatter_loop eg scatter_r cumulative_prob target_group =
     (if target_group < NUM_ENERGY_GROUPS then
        (let cumulative_prob' = cumulative_prob + SCATTERING_PROBABILITIES ! eg ! target_group
         in if scatter_r < cumulative_prob' then target_group
            else scatter_loop eg scatter_r cumulative_prob' (target_group + 1))
      else eg)"
  by pat_completeness auto
termination
  by (relation "measure (\<lambda>(eg, scatter_r, cumulative_prob, target_group).
        NUM_ENERGY_GROUPS - target_group)") auto

declare scatter_loop.simps [simp del]

text \<open>
  The spawning loop of the fission branch
  \<^verbatim>\<open>for (auto& n : neutrons) { if (!n.active) { n.initFromFission(position, random_gen);
    count++; if (count >= new_neutrons) break; } }\<close>
  over the remaining slots of the pool. \<open>position\<close> points into the fissioning neutron;
  re-initialising that very neutron copies its position onto itself, so the value read
  through the pointer is the same in every iteration.
\<close>

fun spawn_loop :: "vec3 \<Rightarrow> nat \<Rightarrow> nat \<Rightarrow> Neutron list \<Rightarrow> rng \<Rightarrow> Neutron list \<times> rng" where
  "spawn_loop pos new_neutrons count [] g = ([], g)"
| "spawn_loop pos new_neutrons count (n # ns) g =
     (if \<not> active n then
        (let (n', g1) = initFromFission n pos g;
             count' = count + 1
         in if count' \<ge> new_neutrons then (n' # ns, g1)
            else (let (ns', g2) = spawn_loop pos new_neutrons count' ns g1
                  in (n' # ns', g2)))
      else (let (ns', g1) = spawn_loop pos new_neutrons count ns g
            in (n # ns', g1)))"

text \<open>\<open>fission_events.push_back(e); if (fission_events.size() > 20) fission_events.pop_front();\<close>\<close>

definition record_fission :: "FissionEvent \<Rightarrow> FissionEvent list \<Rightarrow> FissionEvent list" where
  "record_fission e es = (let es' = es @ [e] in if length es' > 20 then tl es' else es')"

definition speed_of :: "nat \<Rightarrow> real" where
  "speed_of eg = sqrt (GROUP_ENERGIES ! eg) * 2"

definition radial :: "vec3 \<Rightarrow> real" where
  "radial p = (case p of (x, y, z) \<Rightarrow> sqrt (x * x + y * y + z * z))"

text \<open>
  The tail of \<open>Neutron::update\<close> (the position update and the boundary check), reached when
  no interaction occurred and also after a scattering, whose branch does not return.
\<close>

definition advance :: "real \<Rightarrow> Neutron \<Rightarrow> Neutron" where
  "advance dt n =
     (let speed = speed_of (energy_group n);
          (px, py, pz) = position n;
          (vx, vy, vz) = velocity n;
          p' = (px + vx * speed * dt, py + vy * speed * dt, pz + vz * speed * dt);
          n' = n\<lparr>position := p'\<rparr>
      in if radial p' > max_distance then n'\<lparr>active := False\<rparr> else n')"

text \<open>
  The two lines
  \<^verbatim>\<open>float mean_free_path_energy = mean_free_path * (1.0f + GROUP_ENERGIES[energy_group] * 0.1f);
  float interaction_prob = 1.0f - std::exp(-dt / mean_free_path_energy);\<close>
\<close>

definition interaction_prob :: "real \<Rightarrow> nat \<Rightarrow> real" where
  "interaction_prob dt eg =
     (let mean_free_path_energy = mean_free_path * (1 + GROUP_ENERGIES ! eg * 0.1)
      in 1 - exp (- dt / mean_free_path_energy))"

text \<open>
  \<open>Neutron::update(dt, neutrons, fission_events, simulation_time, random_gen)\<close> on the
  neutron in slot \<open>i\<close>. The caller iterates over the pool, so \<open>i\<close> is a valid index.
\<close>

definition Neutron_update :: "nat \<Rightarrow> real \<Rightarrow> NeutronSimulation \<Rightarrow> NeutronSimulation" where
  "Neutron_update i dt sim =
     (let n = neutrons sim ! i in
      if \<not> active n then sim
      else
        let n1 = n\<lparr>lifetime := lifetime n + dt\<rparr> in
        if lifetime n1 > max_lifetime then
          sim\<lparr>neutrons := (neutrons sim)[i := n1\<lparr>active := False\<rparr>]\<rparr>
        else
          let (u, g1) = getFloat (random_gen sim) in
          if u < interaction_prob dt (energy_group n1) then
            let (r, g2) = getFloat g1 in
            if r < 1 - absorption_probability - fission_probability then
              let (dir, g3) = randomDirection g2;
                  (scatter_r, g4) = getFloat g3;
                  n2 = n1\<lparr>velocity := dir,
                          energy_group := scatter_loop (energy_group n1) scatter_r 0 0\<rparr>
              in sim\<lparr>neutrons := (neutrons sim)[i := advance dt n2], random_gen := g4\<rparr>
            else if r < 1 - fission_probability then
              sim\<lparr>neutrons := (neutrons sim)[i := n1\<lparr>active := False\<rparr>], random_gen := g2\<rparr>
            else
              let n2 = n1\<lparr>active := False\<rparr>;
                  (u3, g3) = getFloat g2;
                  new_neutrons = (if u3 < 0.5 then 3 else 2);
                  events = record_fission
                     \<lparr>fe_position = position n2, fe_time = simulation_time sim\<rparr>
                     (fission_events sim);
                  (pool, g4) = spawn_loop (position n2) new_neutrons 0
                     ((neutrons sim)[i := n2]) g3
              in sim\<lparr>neutrons := pool, fission_events := events, random_gen := g4\<rparr>
          else
            sim\<lparr>neutrons := (neutrons sim)[i := advance dt n1], random_gen := g1\<rparr>)"

text \<open>
  The constructor \<open>NeutronSimulation()\<close>: \<open>resize\<close> default-constructs the pool, then the
  first \<open>num_neutrons / 3\<close> slots are initialised at the source.
\<close>

definition init_slot :: "nat \<Rightarrow> Neutron list \<times> rng \<Rightarrow> Neutron list \<times> rng" where
  "init_slot i s = (case s of (ns, g) \<Rightarrow> (let (n, g') = init (ns ! i) g in (ns[i := n], g')))"

definition NeutronSimulation_new :: "nat \<Rightarrow> rng \<Rightarrow> NeutronSimulation" where
  "NeutronSimulation_new num_neutrons g =
     (let initial_count = num_neutrons div 3;
          (ns, g') = fold init_slot [0..<initial_count] (replicate num_neutrons Neutron_default, g)
      in \<lparr>neutrons = ns, fission_events = [], simulation_time = 0, random_gen = g'\<rparr>)"

subsection \<open>Naming the branches of \<open>Neutron::update\<close>\<close>

text \<open>
  The properties below speak about which interaction a step drew. \<open>drawn\<close> reads the two
  draws the way the nested \<open>if\<close> of \<open>Neutron::update\<close> does: the first against
  \<open>interaction_prob\<close>, the second against the cumulative thresholds, in the order scatter,
  absorb, fission. It is a name for the branch taken; the branch lemmas of the next chapter
  tie it to \<open>Neutron_update\<close>.
\<close>

datatype interaction = NoInteraction | Scatter | Absorb | Fission

definition drawn :: "real \<Rightarrow> Neutron \<Rightarrow> rng \<Rightarrow> interaction" where
  "drawn dt n g =
     (if shd g < interaction_prob dt (energy_group n) then
        (let r = shd (stl g) in
         if r < 1 - absorption_probability - fission_probability then Scatter
         else if r < 1 - fission_probability then Absorb
         else Fission)
      else NoInteraction)"

text \<open>The position \<open>p\<close> after \<open>position[k] += velocity[k] * speed * dt\<close> for \<open>k = 0, 1, 2\<close>.\<close>

definition moved_by :: "real \<Rightarrow> vec3 \<Rightarrow> nat \<Rightarrow> vec3 \<Rightarrow> vec3" where
  "moved_by dt v eg p =
     (case p of (px, py, pz) \<Rightarrow> case v of (vx, vy, vz) \<Rightarrow>
        (px + vx * speed_of eg * dt, py + vy * speed_of eg * dt, pz + vz * speed_of eg * dt))"

text \<open>
  A pool of two slots used for the concrete runs below: an active neutron of energy group
  \<open>eg\<close> at the origin, heading along the x axis, and a slot that was never activated.
\<close>

definition example_sim :: "nat \<Rightarrow> rng \<Rightarrow> NeutronSimulation" where
  "example_sim eg g =
     \<lparr>neutrons = [\<lparr>position = (0, 0, 0), velocity = (1, 0, 0), energy_group = eg, lifetime = 0,
                   active = True\<rparr>, Neutron_default],
      fission_events = [], simulation_time = 0.5, random_gen = g\<rparr>"

section \<open>Static mode: \<open>static_neutron_scene_generator.cc\<close>\<close>

definition NUM_TRACKS :: nat where "NUM_TRACKS = 250"
definition POINTS_PER_TRACK :: nat where "POINTS_PER_TRACK = 20"
definition MAX_TRACK_LENGTH :: real where "MAX_TRACK_LENGTH = 15"
definition SOURCE_RADIUS :: real where "SOURCE_RADIUS = 0.5"
definition CORE_RADIUS :: real where "CORE_RADIUS = 3"
definition REFLECTOR_RADIUS :: real where "REFLECTOR_RADIUS = 6"
definition CURVATURE_FACTOR :: real where "CURVATURE_FACTOR = 0.4"
definition CORE_ABSORPTION :: real where "CORE_ABSORPTION = 0.1"
definition REFLECTOR_ABSORPTION :: real where "REFLECTOR_ABSORPTION = 0.4"
definition OUTER_ABSORPTION :: real where "OUTER_ABSORPTION = 0.8"

definition CORE_COLOR :: vec3 where "CORE_COLOR = (1, 0.3, 0.3)"
definition REFLECTOR_COLOR :: vec3 where "REFLECTOR_COLOR = (0.3, 0.7, 1)"
definition OUTER_COLOR :: vec3 where "OUTER_COLOR = (1, 1, 0.3)"

text \<open>The global engine and distribution: \<open>uniform_dist(gen)\<close>.\<close>

definition uniform_dist :: "rng \<Rightarrow> real \<times> rng" where
  "uniform_dist g = (shd g, stl g)"

subsection \<open>Vectors that may hold NaN\<close>

text \<open>
  \<open>NeutronTrack::generate\<close> divides the direction by its length without testing the length.
  Over the reals the length \<open>sqrt (x*x + y*y + z*z)\<close> is zero only for the zero vector, and
  then each \<open>dir[k] /= length\<close> is the IEEE division \<open>0 / 0\<close>, which is NaN. HOL's \<open>0 / 0\<close>
  is \<open>0\<close>, so this outcome is a value of its own: \<open>NaNs\<close> is the vector whose three
  components are NaN. Arithmetic with NaN gives NaN, and every comparison with NaN is false.
\<close>

datatype fvec3 = Vec vec3 | NaNs

text \<open>\<open>dir[k] += perturb[k]\<close>\<close>

fun perturbed :: "fvec3 \<Rightarrow> vec3 \<Rightarrow> fvec3" where
  "perturbed (Vec (x, y, z)) (px, py, pz) = Vec (x + px, y + py, z + pz)"
| "perturbed NaNs p = NaNs"

text \<open>
  \<^verbatim>\<open>length = std::sqrt(dir[0]*dir[0] + dir[1]*dir[1] + dir[2]*dir[2]);
  dir[0] /= length; dir[1] /= length; dir[2] /= length;\<close>
\<close>

fun normalized :: "fvec3 \<Rightarrow> fvec3" where
  "normalized (Vec (x, y, z)) =
     (let len = sqrt (x * x + y * y + z * z)
      in if len = 0 then NaNs else Vec (x / len, y / len, z / len))"
| "normalized NaNs = NaNs"

text \<open>\<open>pos[k] += dir[k] * step_length\<close>\<close>

fun stepped :: "fvec3 \<Rightarrow> fvec3 \<Rightarrow> real \<Rightarrow> fvec3" where
  "stepped (Vec (x, y, z)) (Vec (dx, dy, dz)) step_length =
     Vec (x + dx * step_length, y + dy * step_length, z + dz * step_length)"
| "stepped pos dir step_length = NaNs"

text \<open>\<open>dist = std::sqrt(pos[0]*pos[0] + pos[1]*pos[1] + pos[2]*pos[2])\<close>; \<open>None\<close> is NaN.\<close>

fun dist_of :: "fvec3 \<Rightarrow> real option" where
  "dist_of (Vec (x, y, z)) = Some (sqrt (x * x + y * y + z * z))"
| "dist_of NaNs = None"

text \<open>\<open>dist < bound\<close>, false when \<open>dist\<close> is NaN.\<close>

fun below :: "real option \<Rightarrow> real \<Rightarrow> bool" where
  "below (Some d) bound = (d < bound)"
| "below None bound = False"

subsection \<open>TrackPoint and NeutronTrack\<close>

text \<open>
  The fields \<open>position\<close>, \<open>color\<close> and \<open>active\<close> of \<open>TrackPoint\<close> carry the prefix \<open>tp_\<close>
  here, since \<open>Neutron\<close> of the dynamic program has fields of the same names.
\<close>

record TrackPoint =
  tp_position :: fvec3
  tp_color :: vec3
  tp_active :: bool

text \<open>
  The constructor: \<open>points(POINTS_PER_TRACK)\<close> value-initialises the points (all zero), and
  the loop marks each of them inactive.
\<close>

definition NeutronTrack_new :: "TrackPoint list" where
  "NeutronTrack_new =
     map (\<lambda>p. p\<lparr>tp_active := False\<rparr>)
       (replicate POINTS_PER_TRACK
          \<lparr>tp_position = Vec (0, 0, 0), tp_color = (0, 0, 0), tp_active = False\<rparr>)"

text \<open>The colour ladder for the first point.\<close>

definition region_color :: "real option \<Rightarrow> vec3" where
  "region_color dst =
     (if below dst CORE_RADIUS then CORE_COLOR
      else if below dst REFLECTOR_RADIUS then REFLECTOR_COLOR
      else OUTER_COLOR)"

text \<open>The ladder inside the loop sets the colour and \<open>absorption_prob\<close> together.\<close>

definition region :: "real option \<Rightarrow> vec3 \<times> real" where
  "region dst =
     (if below dst CORE_RADIUS then (CORE_COLOR, CORE_ABSORPTION)
      else if below dst REFLECTOR_RADIUS then (REFLECTOR_COLOR, REFLECTOR_ABSORPTION)
      else (OUTER_COLOR, OUTER_ABSORPTION))"

text \<open>\<open>for (int j = i + 1; j < POINTS_PER_TRACK; j++) points[j].active = false;\<close>\<close>

definition deactivate_from :: "nat \<Rightarrow> TrackPoint list \<Rightarrow> TrackPoint list" where
  "deactivate_from i points =
     fold (\<lambda>j ps. ps[j := (ps ! j)\<lparr>tp_active := False\<rparr>]) [i..<POINTS_PER_TRACK] points"

text \<open>
  One pass through the body of the main loop of \<open>generate\<close> for an active predecessor:
  the perturbation (three draws), the renormalisation, the move, the region ladder and the
  absorption draw. The result holds the new values of the locals \<open>pos\<close> and \<open>dir\<close>, the
  colour written to the point, whether the absorption test \<open>uniform_dist(gen) <
  absorption_prob\<close> succeeded, and the engine after the four draws.
\<close>

record track_step_result =
  ts_pos :: fvec3
  ts_dir :: fvec3
  ts_color :: vec3
  ts_absorbed :: bool
  ts_gen :: rng

definition track_step :: "fvec3 \<Rightarrow> fvec3 \<Rightarrow> rng \<Rightarrow> track_step_result" where
  "track_step pos dir g =
     (let (u1, g1) = uniform_dist g;
          (u2, g2) = uniform_dist g1;
          (u3, g3) = uniform_dist g2;
          perturb = ((u1 * 2 - 1) * CURVATURE_FACTOR,
                     (u2 * 2 - 1) * CURVATURE_FACTOR,
                     (u3 * 2 - 1) * CURVATURE_FACTOR);
          dir' = normalized (perturbed dir perturb);
          step_length = MAX_TRACK_LENGTH / real POINTS_PER_TRACK;
          pos' = stepped pos dir' step_length;
          (color, absorption_prob) = region (dist_of pos');
          (u4, g4) = uniform_dist g3
      in \<lparr>ts_pos = pos', ts_dir = dir', ts_color = color,
          ts_absorbed = (u4 < absorption_prob), ts_gen = g4\<rparr>)"

text \<open>
  The main loop \<open>for (int i = 1; i < POINTS_PER_TRACK; i++)\<close> of \<open>generate\<close>, with the local
  variables \<open>pos\<close> and \<open>dir\<close> as arguments. \<open>continue\<close> is the first recursive call, \<open>break\<close>
  the return after \<open>deactivate_from\<close>. Both exits of the body set \<open>points[i].active = true\<close>
  after the position and the colour were written.
\<close>

function track_loop ::
  "nat \<Rightarrow> fvec3 \<Rightarrow> fvec3 \<Rightarrow> TrackPoint list \<Rightarrow> rng \<Rightarrow> TrackPoint list \<times> rng" where
  "track_loop i pos dir points g =
     (if i < POINTS_PER_TRACK then
        if \<not> tp_active (points ! (i - 1)) then
          track_loop (i + 1) pos dir (points[i := (points ! i)\<lparr>tp_active := False\<rparr>]) g
        else
          let r = track_step pos dir g;
              points1 = points[i := (points ! i)
                 \<lparr>tp_position := ts_pos r, tp_color := ts_color r, tp_active := True\<rparr>]
          in if ts_absorbed r then (deactivate_from (i + 1) points1, ts_gen r)
             else track_loop (i + 1) (ts_pos r) (ts_dir r) points1 (ts_gen r)
      else (points, g))"
  by pat_completeness auto
termination
  by (relation "measure (\<lambda>(i, pos, dir, points, g). POINTS_PER_TRACK - i)") auto

declare track_loop.simps [simp del]

text \<open>\<open>NeutronTrack::generate\<close> on the points of the track.\<close>

definition generate :: "TrackPoint list \<Rightarrow> rng \<Rightarrow> TrackPoint list \<times> rng" where
  "generate points g =
     (let (u1, g1) = uniform_dist g;
          phi = u1 * 2 * pi;
          (u2, g2) = uniform_dist g1;
          costheta = 2 * u2 - 1;
          sintheta = sqrt (1 - costheta * costheta);
          (u3, g3) = uniform_dist g2;
          r = SOURCE_RADIUS * (u3 powr (1 / 3));
          pos = Vec (r * sintheta * cos phi, r * sintheta * sin phi, r * costheta);
          (u4, g4) = uniform_dist g3;
          (u5, g5) = uniform_dist g4;
          (u6, g6) = uniform_dist g5;
          dir = normalized (Vec (sintheta * cos phi + (u4 - 0.5) * 0.5,
                                 sintheta * sin phi + (u5 - 0.5) * 0.5,
                                 costheta + (u6 - 0.5) * 0.5));
          p0 = (points ! 0)\<lparr>tp_position := pos, tp_color := region_color (dist_of pos),
                            tp_active := True\<rparr>
      in track_loop 1 pos dir (points[0 := p0]) g6)"

section \<open>Fractal terrain: the terrain generator (\<open>src/unnamed/part_000\<close>)\<close>

subsection \<open>The Gaussian generator\<close>

text \<open>
  \<open>std::mt19937\<close> and \<open>std::normal_distribution\<close> belong to the C++ library. The argument
  \<open>normal_stream\<close> of the functions below stands for them: \<open>normal_stream seed\<close> is the sequence
  of values that \<open>gauss(rng)\<close> returns after \<open>rng.seed(seed)\<close> and the assignment of a fresh
  \<open>std::normal_distribution<double>(0.0, 1.0)\<close> to \<open>gauss\<close>. The member \<open>ft_gauss\<close> is the state
  of the pair \<open>(rng, gauss)\<close>: the values still to come.
\<close>

type_synonym height_grid = "real list list"

text \<open>
  The members \<open>n\<close>, \<open>D\<close>, \<open>H\<close>, \<open>seed\<close>, \<open>sigma\<close> and \<open>grid\<close> carry the prefix \<open>ft_\<close>, so that
  these short names stay free for variables. \<open>n\<close> is an \<open>int\<close> in the source; \<open>1 << n\<close> is
  defined for \<open>0 \<le> n < 31\<close> only, and the model takes \<open>n\<close> as a natural number and \<open>1 << n\<close>
  as \<open>2 ^ n\<close>.
\<close>

record FractalTerrain =
  ft_n :: nat
  ft_D :: real
  ft_H :: real
  ft_seed :: int
  ft_sigma :: real
  ft_grid :: height_grid
  ft_gauss :: rng

text \<open>\<open>double Gauss() { return gauss(rng); }\<close>\<close>

definition Gauss :: "rng \<Rightarrow> real \<times> rng" where
  "Gauss g = (shd g, stl g)"

definition InitGauss :: "(int \<Rightarrow> rng) \<Rightarrow> int \<Rightarrow> FractalTerrain \<Rightarrow> FractalTerrain" where
  "InitGauss normal_stream seed t = t\<lparr>ft_gauss := normal_stream seed\<rparr>"

definition f3 :: "real \<Rightarrow> real \<Rightarrow> real \<Rightarrow> real \<Rightarrow> rng \<Rightarrow> real \<times> rng" where
  "f3 delta x0 x1 x2 g = (let (z, g') = Gauss g in ((x0 + x1 + x2) / 3 + delta * z, g'))"

definition f4 :: "real \<Rightarrow> real \<Rightarrow> real \<Rightarrow> real \<Rightarrow> real \<Rightarrow> rng \<Rightarrow> real \<times> rng" where
  "f4 delta x0 x1 x2 x3 g =
     (let (z, g') = Gauss g in ((x0 + x1 + x2 + x3) / 4 + delta * z, g'))"

subsection \<open>Loops with a stride\<close>

text \<open>
  \<open>for (int x = a; x < bound; x += step) body\<close>. In \<open>generateTerrain\<close> the stride is \<open>D\<close>, which
  is \<open>2 ^ k\<close> with \<open>k \<ge> 1\<close> when \<open>k\<close> stages are still to run (\<open>stages_strides\<close>), so the loops end; with a stride of
  \<open>0\<close>, which the program never reaches, the C++ loop would not end and the function below
  returns the state as it is. A loop \<open>x <= N\<close> is the loop \<open>x < N + 1\<close>.
\<close>

function for_step :: "nat \<Rightarrow> nat \<Rightarrow> nat \<Rightarrow> (nat \<Rightarrow> 's \<Rightarrow> 's) \<Rightarrow> 's \<Rightarrow> 's" where
  "for_step x bound step body s =
     (if x < bound \<and> 0 < step then for_step (x + step) bound step body (body x s) else s)"
  by pat_completeness auto
termination
  by (relation "measure (\<lambda>(x, bound, step, body, s). bound - x)") auto

declare for_step.simps [simp del]

subsection \<open>\<open>generateTerrain\<close>\<close>

text \<open>The state of the loops: the grid and the Gaussian generator.\<close>

type_synonym terrain_state = "height_grid \<times> rng"

text \<open>\<open>grid[x][y] = v\<close>\<close>

definition put :: "nat \<Rightarrow> nat \<Rightarrow> real \<Rightarrow> height_grid \<Rightarrow> height_grid" where
  "put x y v grid = grid[x := (grid ! x)[y := v]]"

text \<open>\<open>grid[x][y] = delta * Gauss()\<close>, for the four corners.\<close>

definition seed_corner :: "real \<Rightarrow> nat \<Rightarrow> nat \<Rightarrow> terrain_state \<Rightarrow> terrain_state" where
  "seed_corner delta x y s =
     (case s of (grid, g) \<Rightarrow> let (z, g') = Gauss g in (put x y (delta * z) grid, g'))"

text \<open>\<open>grid[x][y] = grid[x][y] + delta * Gauss()\<close>\<close>

definition perturb_cell :: "real \<Rightarrow> nat \<Rightarrow> nat \<Rightarrow> terrain_state \<Rightarrow> terrain_state" where
  "perturb_cell delta x y s =
     (case s of (grid, g) \<Rightarrow>
        let (z, g') = Gauss g in (put x y (grid ! x ! y + delta * z) grid, g'))"

text \<open>
  \<open>grid[x][y] = f4(delta, grid[x+d][y+d], grid[x+d][y-d], grid[x-d][y+d], grid[x-d][y-d])\<close>:
  the centre of a square from its four corners.
\<close>

definition diamond_cell :: "real \<Rightarrow> nat \<Rightarrow> nat \<Rightarrow> nat \<Rightarrow> terrain_state \<Rightarrow> terrain_state" where
  "diamond_cell delta d x y s =
     (case s of (grid, g) \<Rightarrow>
        let (v, g') = f4 delta (grid ! (x + d) ! (y + d)) (grid ! (x + d) ! (y - d))
                        (grid ! (x - d) ! (y + d)) (grid ! (x - d) ! (y - d)) g
        in (put x y v grid, g'))"

text \<open>
  \<open>grid[x][y] = f4(delta, grid[x][y+d], grid[x][y-d], grid[x+d][y], grid[x-d][y])\<close>: the
  midpoint of an interior edge.
\<close>

definition square_cell :: "real \<Rightarrow> nat \<Rightarrow> nat \<Rightarrow> nat \<Rightarrow> terrain_state \<Rightarrow> terrain_state" where
  "square_cell delta d x y s =
     (case s of (grid, g) \<Rightarrow>
        let (v, g') = f4 delta (grid ! x ! (y + d)) (grid ! x ! (y - d))
                        (grid ! (x + d) ! y) (grid ! (x - d) ! y) g
        in (put x y v grid, g'))"

text \<open>The four boundary statements of the edge loop, in the order of the source.\<close>

definition bottom_edge :: "real \<Rightarrow> nat \<Rightarrow> nat \<Rightarrow> terrain_state \<Rightarrow> terrain_state" where
  "bottom_edge delta d x s =
     (case s of (grid, g) \<Rightarrow>
        let (v, g') = f3 delta (grid ! (x + d) ! 0) (grid ! (x - d) ! 0) (grid ! x ! d) g
        in (put x 0 v grid, g'))"

definition top_edge :: "real \<Rightarrow> nat \<Rightarrow> nat \<Rightarrow> nat \<Rightarrow> terrain_state \<Rightarrow> terrain_state" where
  "top_edge delta N d x s =
     (case s of (grid, g) \<Rightarrow>
        let (v, g') = f3 delta (grid ! (x + d) ! N) (grid ! (x - d) ! N) (grid ! x ! (N - d)) g
        in (put x N v grid, g'))"

definition left_edge :: "real \<Rightarrow> nat \<Rightarrow> nat \<Rightarrow> terrain_state \<Rightarrow> terrain_state" where
  "left_edge delta d x s =
     (case s of (grid, g) \<Rightarrow>
        let (v, g') = f3 delta (grid ! 0 ! (x + d)) (grid ! 0 ! (x - d)) (grid ! d ! x) g
        in (put 0 x v grid, g'))"

definition right_edge :: "real \<Rightarrow> nat \<Rightarrow> nat \<Rightarrow> nat \<Rightarrow> terrain_state \<Rightarrow> terrain_state" where
  "right_edge delta N d x s =
     (case s of (grid, g) \<Rightarrow>
        let (v, g') = f3 delta (grid ! N ! (x + d)) (grid ! N ! (x - d)) (grid ! (N - d) ! x) g
        in (put N x v grid, g'))"

text \<open>
  The body of the stage loop, with the values of \<open>D\<close>, \<open>d\<close> and \<open>delta\<close> at its head; the
  result carries the value of \<open>delta\<close> at its end.
\<close>

definition stage :: "real \<Rightarrow> nat \<Rightarrow> nat \<Rightarrow> nat \<Rightarrow> real \<Rightarrow> terrain_state \<Rightarrow> real \<times> terrain_state" where
  "stage H N D d delta s =
     (let delta1 = delta * (0.5 powr (0.5 * H));
          s1 = for_step d N D (\<lambda>x. for_step d N D (\<lambda>y. diamond_cell delta1 d x y)) s;
          s2 = for_step 0 (N + 1) D (\<lambda>x. for_step 0 (N + 1) D (\<lambda>y. perturb_cell delta1 x y)) s1;
          delta2 = delta1 * (0.5 powr (0.5 * H));
          s3 = for_step d N D (\<lambda>x s. right_edge delta2 N d x (left_edge delta2 d x
                  (top_edge delta2 N d x (bottom_edge delta2 d x s)))) s2;
          s4 = for_step d N D (\<lambda>x. for_step D N D (\<lambda>y. square_cell delta2 d x y)) s3;
          s5 = for_step D N D (\<lambda>x. for_step d N D (\<lambda>y. square_cell delta2 d x y)) s4;
          s6 = for_step 0 (N + 1) D (\<lambda>x. for_step 0 (N + 1) D (\<lambda>y. perturb_cell delta2 x y)) s5;
          s7 = for_step d N D (\<lambda>x. for_step d N D (\<lambda>y. perturb_cell delta2 x y)) s6
      in (delta2, s7))"

text \<open>
  \<open>for (int stage = 1; stage <= n; stage++)\<close>: the first argument counts the iterations
  still to run; \<open>D\<close> and \<open>d\<close> are halved at the end of each.
\<close>

fun stages :: "nat \<Rightarrow> real \<Rightarrow> nat \<Rightarrow> nat \<Rightarrow> nat \<Rightarrow> real \<Rightarrow> terrain_state \<Rightarrow> terrain_state" where
  "stages 0 H N D d delta s = s"
| "stages (Suc k) H N D d delta s =
     (case stage H N D d delta s of (delta', s') \<Rightarrow> stages k H N (D div 2) (d div 2) delta' s')"

definition generateTerrain :: "(int \<Rightarrow> rng) \<Rightarrow> FractalTerrain \<Rightarrow> FractalTerrain" where
  "generateTerrain normal_stream t =
     (let N = 2 ^ ft_n t;
          t0 = InitGauss normal_stream (ft_seed t) t;
          delta = ft_sigma t0;
          s0 = seed_corner delta N N (seed_corner delta N 0
                 (seed_corner delta 0 N (seed_corner delta 0 0 (ft_grid t0, ft_gauss t0))));
          (grid, g) = stages (ft_n t0) (ft_H t0) N N (N div 2) delta s0
      in t0\<lparr>ft_grid := grid, ft_gauss := g\<rparr>)"

text \<open>
  The constructor. The engine and the distribution are default-constructed before
  \<open>generateTerrain\<close> seeds them; \<open>5489\<close> is the default seed of \<open>std::mt19937\<close>.
\<close>

definition FractalTerrain_new ::
  "(int \<Rightarrow> rng) \<Rightarrow> nat \<Rightarrow> real \<Rightarrow> int \<Rightarrow> real \<Rightarrow> FractalTerrain" where
  "FractalTerrain_new normal_stream n_val D_val seed_val sigma_val =
     (let size = 2 ^ n_val + 1
      in generateTerrain normal_stream
           \<lparr>ft_n = n_val, ft_D = D_val, ft_H = 3 - D_val, ft_seed = seed_val,
            ft_sigma = sigma_val, ft_grid = replicate size (replicate size 0),
            ft_gauss = normal_stream 5489\<rparr>)"

subsection \<open>\<open>getColor\<close> and its static variables\<close>

text \<open>
  The three \<open>static\<close> locals of \<open>getColor\<close> live as long as the process and are shared by all
  terrain objects; the model passes them in and out.
\<close>

record color_cache =
  minHeight :: real
  maxHeight :: real
  heightsCalculated :: bool

definition static_init :: color_cache where
  "static_init = \<lparr>minHeight = 0, maxHeight = 0, heightsCalculated = False\<rparr>"

text \<open>The scan \<open>for (row : grid) for (val : row) { minHeight = min(..); maxHeight = max(..); }\<close>.\<close>

definition scan_heights :: "height_grid \<Rightarrow> real \<times> real" where
  "scan_heights grid =
     fold (\<lambda>row. fold (\<lambda>val (mn, mx). (min mn val, max mx val)) row) grid
       (grid ! 0 ! 0, grid ! 0 ! 0)"

text \<open>
  \<open>(height - minHeight) / (maxHeight - minHeight)\<close> divides by zero when the cached extremes
  coincide; the IEEE result is then an infinity or NaN, and the comparisons of the colour
  ladder see it as such.
\<close>

datatype height_level = Level real | NegInf | PosInf | NotANumber

definition normalize :: "real \<Rightarrow> real \<Rightarrow> real \<Rightarrow> height_level" where
  "normalize height mn mx =
     (if mx - mn = 0 then
        (if height - mn > 0 then PosInf else if height - mn < 0 then NegInf else NotANumber)
      else Level ((height - mn) / (mx - mn)))"

definition lerp :: "real \<Rightarrow> real \<Rightarrow> real \<Rightarrow> real" where
  "lerp t a b = a + t * (b - a)"

definition colorLerp :: "real \<Rightarrow> vec3 \<Rightarrow> vec3 \<Rightarrow> vec3" where
  "colorLerp t a b =
     (case a of (a0, a1, a2) \<Rightarrow> case b of (b0, b1, b2) \<Rightarrow>
        (lerp t a0 b0, lerp t a1 b1, lerp t a2 b2))"

definition blendWidth :: real where "blendWidth = 0.03"
definition deepWaterThresh :: real where "deepWaterThresh = 0.20"
definition shallowWaterThresh :: real where "shallowWaterThresh = 0.30"
definition sandThresh :: real where "sandThresh = 0.40"
definition grassThresh :: real where "grassThresh = 0.60"
definition mountainThresh :: real where "mountainThresh = 0.80"

definition deepWaterColor :: vec3 where "deepWaterColor = (0, 0, 0.5)"
definition shallowWaterColor :: vec3 where "shallowWaterColor = (0, 0, 0.8)"
definition sandColor :: vec3 where "sandColor = (0.76, 0.7, 0.5)"
definition grassColor :: vec3 where "grassColor = (0, 0.6, 0)"
definition mountainColor :: vec3 where "mountainColor = (0.5, 0.35, 0.05)"
definition snowColor :: vec3 where "snowColor = (1, 1, 1)"

text \<open>
  The ladder of \<open>getColor\<close>. Minus infinity passes the first test, plus infinity and NaN
  fail every test and reach the final \<open>else\<close>.
\<close>

fun color_ladder :: "height_level \<Rightarrow> vec3" where
  "color_ladder (Level h) =
     (if h < deepWaterThresh - blendWidth then deepWaterColor
      else if h < deepWaterThresh + blendWidth then
        colorLerp ((h - (deepWaterThresh - blendWidth)) / (2 * blendWidth))
          deepWaterColor shallowWaterColor
      else if h < shallowWaterThresh - blendWidth then shallowWaterColor
      else if h < shallowWaterThresh + blendWidth then
        colorLerp ((h - (shallowWaterThresh - blendWidth)) / (2 * blendWidth))
          shallowWaterColor sandColor
      else if h < sandThresh - blendWidth then sandColor
      else if h < sandThresh + blendWidth then
        colorLerp ((h - (sandThresh - blendWidth)) / (2 * blendWidth)) sandColor grassColor
      else if h < grassThresh - blendWidth then grassColor
      else if h < grassThresh + blendWidth then
        colorLerp ((h - (grassThresh - blendWidth)) / (2 * blendWidth)) grassColor mountainColor
      else if h < mountainThresh - blendWidth then mountainColor
      else if h < mountainThresh + blendWidth then
        colorLerp ((h - (mountainThresh - blendWidth)) / (2 * blendWidth))
          mountainColor snowColor
      else snowColor)"
| "color_ladder NegInf = deepWaterColor"
| "color_ladder PosInf = snowColor"
| "color_ladder NotANumber = snowColor"

text \<open>\<open>getColor(height)\<close> on the terrain \<open>t\<close>, with the static variables \<open>c\<close>.\<close>

definition getColor :: "color_cache \<Rightarrow> FractalTerrain \<Rightarrow> real \<Rightarrow> vec3 \<times> color_cache" where
  "getColor c t height =
     (let c' = (if \<not> heightsCalculated c then
                  (let (mn, mx) = scan_heights (ft_grid t)
                   in \<lparr>minHeight = mn, maxHeight = mx, heightsCalculated = True\<rparr>)
                else c);
          normalizedHeight = normalize height (minHeight c') (maxHeight c')
      in (color_ladder normalizedHeight, c'))"

section \<open>Superquadrics: \<open>superQuadrics.cc\<close>\<close>

subsection \<open>Floats that may be NaN\<close>

text \<open>
  The evaluators compute in \<open>float\<close>. A finite value is taken as a real number; NaN is kept
  as a value of its own, because two operations of the evaluators produce it from finite
  arguments: \<open>asin\<close> of an argument outside \<open>[-1, 1]\<close>, and the division \<open>0 / 0\<close> (HOL's
  \<open>arcsin\<close> is a total function on the reals and HOL's \<open>0 / 0\<close> is \<open>0\<close>). Arithmetic with NaN
  gives NaN and every comparison with NaN is false. The parameters of the evaluators are
  finite values. Infinities are not part of the model: a non-zero value divided by zero is
  infinite in IEEE arithmetic, and the evaluators divide by constants, by a length tested
  to exceed \<open>0.0001\<close>, by a positive count, and by \<open>n_divisions\<close>, which is zero only when
  the dividend is zero too. The operators \<open>+\<close>, \<open>-\<close>, \<open>*\<close> and \<open>/\<close> of the source are those of
  the type below (the class of \<open>/\<close> has a reciprocal as well, which the evaluators do not
  use).
\<close>

datatype flt = Fin real | NaN

instantiation flt :: "{plus, minus, times, inverse}"
begin

fun plus_flt :: "flt \<Rightarrow> flt \<Rightarrow> flt" where
  "plus_flt (Fin x) (Fin y) = Fin (x + y)"
| "plus_flt a b = NaN"

fun minus_flt :: "flt \<Rightarrow> flt \<Rightarrow> flt" where
  "minus_flt (Fin x) (Fin y) = Fin (x - y)"
| "minus_flt a b = NaN"

fun times_flt :: "flt \<Rightarrow> flt \<Rightarrow> flt" where
  "times_flt (Fin x) (Fin y) = Fin (x * y)"
| "times_flt a b = NaN"

fun divide_flt :: "flt \<Rightarrow> flt \<Rightarrow> flt" where
  "divide_flt (Fin x) (Fin y) = (if y = 0 then NaN else Fin (x / y))"
| "divide_flt a b = NaN"

fun inverse_flt :: "flt \<Rightarrow> flt" where
  "inverse_flt (Fin x) = (if x = 0 then NaN else Fin (1 / x))"
| "inverse_flt NaN = NaN"

instance ..

end

text \<open>\<open>cos\<close>, \<open>sin\<close> and \<open>sqrt\<close> of a value that may be NaN.\<close>

fun cos_flt :: "flt \<Rightarrow> flt" where
  "cos_flt (Fin x) = Fin (cos x)"
| "cos_flt NaN = NaN"

fun sin_flt :: "flt \<Rightarrow> flt" where
  "sin_flt (Fin x) = Fin (sin x)"
| "sin_flt NaN = NaN"

text \<open>\<open>sqrt\<close> of a negative value is NaN.\<close>

fun sqrt_flt :: "flt \<Rightarrow> flt" where
  "sqrt_flt (Fin x) = (if x < 0 then NaN else Fin (sqrt x))"
| "sqrt_flt NaN = NaN"

text \<open>\<open>asin\<close> of a finite value: a domain error outside \<open>[-1, 1]\<close>, where the result is NaN.\<close>

definition asin_flt :: "real \<Rightarrow> flt" where
  "asin_flt x = (if - 1 \<le> x \<and> x \<le> 1 then Fin (arcsin x) else NaN)"

text \<open>The tests \<open>v >= 0\<close> and \<open>v > bound\<close>.\<close>

fun nonneg :: "flt \<Rightarrow> bool" where
  "nonneg (Fin x) = (x \<ge> 0)"
| "nonneg NaN = False"

fun exceeds :: "flt \<Rightarrow> real \<Rightarrow> bool" where
  "exceeds (Fin x) bound = (x > bound)"
| "exceeds NaN bound = False"

type_synonym fvec = "flt \<times> flt \<times> flt"

subsection \<open>The renderer the evaluators write to\<close>

text \<open>
  Modelled from the spec: the header \<open>cs630.h\<close> with \<open>attr_point\<close>, \<open>poly_pipeline\<close>,
  \<open>render_m_attr\<close> and the members of \<open>REDirect\<close> is not among the sources. A point is its
  array \<open>coord\<close>; \<open>memset(&p, 0, sizeof(attr_point))\<close> is the array of zeros. The renderer is
  the sink of \<section>6: it receives the points one by one, each with the flag \<open>MOVE\<close> or \<open>DRAW\<close>,
  and \<open>pipeline\<close> is the sequence of the calls of \<open>poly_pipeline\<close> so far. The index
  \<open>render_m_attr.normal\<close>, fixed by the calls \<open>clear\<close>, \<open>add_geometry\<close>, \<open>add_normal\<close> and
  \<open>add_shading_offset\<close> at the head of both evaluators, is the argument \<open>normal\<close> of the
  functions below. \<open>n_divisions\<close> is an \<open>int\<close> member; the model takes it as a natural
  number (a negative value makes the allocation of the grid fail).
\<close>

type_synonym attr_point = "nat \<Rightarrow> flt"

datatype draw_flag = MOVE | DRAW

record REDirect =
  n_divisions :: nat
  obj_normal_flag :: bool
  poly_normal :: fvec
  pipeline :: "(attr_point \<times> draw_flag) list"

definition poly_pipeline :: "attr_point \<Rightarrow> draw_flag \<Rightarrow> REDirect \<Rightarrow> REDirect" where
  "poly_pipeline p flag st = st\<lparr>pipeline := pipeline st @ [(p, flag)]\<rparr>"

subsection \<open>The parametric equations\<close>

text \<open>
  \<open>pow(fabs(v), e)\<close>: for a base \<open>0\<close> the C function returns \<open>1\<close> when \<open>e = 0\<close> and \<open>0\<close> when
  \<open>e > 0\<close>; HOL's \<open>0 powr e\<close> is \<open>0\<close> for every \<open>e\<close>. (For a base \<open>0\<close> and \<open>e < 0\<close> C returns
  infinity, which the model does not hold; the exponents of a superquadric are positive.)
  For a base NaN the C function returns \<open>1\<close> when \<open>e = 0\<close> and NaN otherwise.
\<close>

fun pow_abs :: "flt \<Rightarrow> real \<Rightarrow> flt" where
  "pow_abs (Fin v) e = Fin (if v = 0 \<and> e = 0 then 1 else \<bar>v\<bar> powr e)"
| "pow_abs NaN e = (if e = 0 then Fin 1 else NaN)"

text \<open>\<open>sgn_v * pow(fabs(v), e)\<close> with \<open>sgn_v = (v >= 0) ? 1.0f : -1.0f\<close>.\<close>

definition pow_term :: "flt \<Rightarrow> real \<Rightarrow> flt" where
  "pow_term v e = (if nonneg v then Fin 1 else Fin (- 1)) * pow_abs v e"

definition zero_point :: attr_point where
  "zero_point = (\<lambda>k. Fin 0)"

text \<open>
  The body of the two nested loops that fill the grid of the sphere, at \<open>(ui, vi)\<close>. The
  angles \<open>phimin\<close> and \<open>phimax\<close> come from \<open>asin\<close> and may be NaN. With \<open>n_divisions = 0\<close> the
  quotients \<open>(float)ui / n_divisions\<close> and \<open>(float)vi / n_divisions\<close> are \<open>0 / 0\<close>.
\<close>

definition sqsphere_point ::
  "nat \<Rightarrow> real \<Rightarrow> real \<Rightarrow> real \<Rightarrow> flt \<Rightarrow> flt \<Rightarrow> real \<Rightarrow> nat \<Rightarrow> nat \<Rightarrow> attr_point" where
  "sqsphere_point n radius north east phimin phimax thetamax ui vi =
     (let theta = Fin (real ui) / Fin (real n) * Fin thetamax * Fin pi / Fin 180;
          cos_theta = cos_flt theta;
          sin_theta = sin_flt theta;
          phi0 = phimin + Fin (real vi) / Fin (real n) * (phimax - phimin);
          phi = phi0 * Fin pi / Fin 180;
          cos_phi = cos_flt phi;
          sin_phi = sin_flt phi;
          pow_cos_theta = pow_term cos_theta east;
          pow_sin_theta = pow_term sin_theta east;
          pow_cos_phi = pow_term cos_phi north;
          pow_sin_phi = pow_term sin_phi north;
          x = Fin radius * pow_cos_theta * pow_cos_phi;
          y = Fin radius * pow_sin_theta * pow_cos_phi;
          z = Fin radius * pow_sin_phi
      in zero_point(0 := x, 1 := y, 2 := z, 3 := Fin 1, 4 := Fin 1))"

text \<open>The same for the torus, whose angles \<open>phimin\<close> and \<open>phimax\<close> are parameters.\<close>

definition sqtorus_point ::
  "nat \<Rightarrow> real \<Rightarrow> real \<Rightarrow> real \<Rightarrow> real \<Rightarrow> real \<Rightarrow> real \<Rightarrow> real \<Rightarrow> nat \<Rightarrow> nat
     \<Rightarrow> attr_point" where
  "sqtorus_point n radius1 radius2 north east phimin phimax thetamax ui vi =
     (let theta = Fin (real ui) / Fin (real n) * Fin thetamax * Fin pi / Fin 180;
          cos_theta = cos_flt theta;
          sin_theta = sin_flt theta;
          pow_cos_theta = pow_term cos_theta east;
          pow_sin_theta = pow_term sin_theta east;
          phi0 = Fin phimin + Fin (real vi) / Fin (real n) * (Fin phimax - Fin phimin);
          phi = phi0 * Fin pi / Fin 180;
          cos_phi = cos_flt phi;
          sin_phi = sin_flt phi;
          pow_cos_phi = pow_term cos_phi north;
          pow_sin_phi = pow_term sin_phi north;
          x = pow_cos_theta * (Fin radius1 + Fin radius2 * pow_cos_phi);
          y = pow_sin_theta * (Fin radius1 + Fin radius2 * pow_cos_phi);
          z = Fin radius2 * pow_sin_phi
      in zero_point(0 := x, 1 := y, 2 := z, 3 := Fin 1, 4 := Fin 1))"

text \<open>
  The grid \<open>grid[ui][vi]\<close> for \<open>ui, vi = 0 .. n_divisions\<close>: each iteration of the two nested
  loops writes its own cell, from its own indices.
\<close>

definition fill_grid :: "nat \<Rightarrow> (nat \<Rightarrow> nat \<Rightarrow> attr_point) \<Rightarrow> attr_point list list" where
  "fill_grid n point = map (\<lambda>ui. map (\<lambda>vi. point ui vi) [0..<n + 1]) [0..<n + 1]"

subsection \<open>Normals and emission (the same code in both evaluators)\<close>

text \<open>\<open>xs[i][j] = f(xs[i][j])\<close>\<close>

definition upd2 :: "'a list list \<Rightarrow> nat \<Rightarrow> nat \<Rightarrow> ('a \<Rightarrow> 'a) \<Rightarrow> 'a list list" where
  "upd2 xs i j f = xs[i := (xs ! i)[j := f (xs ! i ! j)]]"

text \<open>
  The face normal of the quad at \<open>(ui, vi)\<close>: the cross product of the two edge vectors,
  normalised when its length exceeds \<open>0.0001\<close>.
\<close>

definition quad_normal :: "attr_point list list \<Rightarrow> nat \<Rightarrow> nat \<Rightarrow> fvec" where
  "quad_normal grid ui vi =
     (let v1 = (\<lambda>i. (grid ! (ui + 1) ! vi) i - (grid ! ui ! vi) i);
          v2 = (\<lambda>i. (grid ! ui ! (vi + 1)) i - (grid ! ui ! vi) i);
          n0 = v1 1 * v2 2 - v1 2 * v2 1;
          n1 = v1 2 * v2 0 - v1 0 * v2 2;
          n2 = v1 0 * v2 1 - v1 1 * v2 0;
          len = sqrt_flt (n0 * n0 + n1 * n1 + n2 * n2)
      in if exceeds len 0.0001 then (n0 / len, n1 / len, n2 / len) else (n0, n1, n2))"

text \<open>
  The accumulation of the face normal of one quad into its four corners. The source keeps
  the three components of a corner in consecutive cells \<open>(vi + j) * 3 + k\<close> of a flat row;
  here a cell holds the three of them.
\<close>

definition accumulate_quad ::
  "attr_point list list \<Rightarrow> nat \<Rightarrow> nat \<Rightarrow> fvec list list \<times> nat list list
     \<Rightarrow> fvec list list \<times> nat list list" where
  "accumulate_quad grid ui vi =
     (let (n0, n1, n2) = quad_normal grid ui vi
      in fold (\<lambda>i. fold (\<lambda>j (acc, cnt).
            (upd2 acc (ui + i) (vi + j) (\<lambda>(a0, a1, a2). (a0 + n0, a1 + n1, a2 + n2)),
             upd2 cnt (ui + i) (vi + j) Suc)) [0..<2]) [0..<2])"

text \<open>The averaged normal of the vertex \<open>(ui, vi)\<close>, stored at \<open>coord[normal .. normal + 2]\<close>.\<close>

definition store_normal ::
  "nat \<Rightarrow> fvec list list \<Rightarrow> nat list list \<Rightarrow> nat \<Rightarrow> nat \<Rightarrow> attr_point list list
     \<Rightarrow> attr_point list list" where
  "store_normal normal acc cnt ui vi grid =
     (if cnt ! ui ! vi > 0 then
        (let (a0, a1, a2) = acc ! ui ! vi;
             nx = a0 / Fin (real (cnt ! ui ! vi));
             ny = a1 / Fin (real (cnt ! ui ! vi));
             nz = a2 / Fin (real (cnt ! ui ! vi));
             len = sqrt_flt (nx * nx + ny * ny + nz * nz);
             (nx', ny', nz') =
                (if exceeds len 0.0001 then (nx / len, ny / len, nz / len) else (nx, ny, nz))
         in upd2 grid ui vi (\<lambda>p. p(normal := nx', normal + 1 := ny', normal + 2 := nz')))
      else grid)"

text \<open>One quad of the last pair of loops: the flat normal, then the four corners.\<close>

definition emit_quad :: "attr_point list list \<Rightarrow> nat \<Rightarrow> nat \<Rightarrow> REDirect \<Rightarrow> REDirect" where
  "emit_quad grid ui vi st =
     (let st1 = st\<lparr>poly_normal := quad_normal grid ui vi\<rparr>;
          p00 = grid ! ui ! vi;
          p10 = grid ! (ui + 1) ! vi;
          p11 = grid ! (ui + 1) ! (vi + 1);
          p01 = grid ! ui ! (vi + 1)
      in poly_pipeline p01 DRAW (poly_pipeline p11 MOVE
           (poly_pipeline p10 MOVE (poly_pipeline p00 MOVE st1))))"

text \<open>
  Everything after the grid is filled: the accumulation over the quads, the averaging over
  the vertices, and the emission of the quads.
\<close>

definition shade_and_emit :: "nat \<Rightarrow> attr_point list list \<Rightarrow> REDirect \<Rightarrow> REDirect" where
  "shade_and_emit normal grid st =
     (let n = n_divisions st;
          accumulated_normals = replicate (n + 1) (replicate (n + 1) (Fin 0, Fin 0, Fin 0));
          normal_counts = replicate (n + 1) (replicate (n + 1) 0);
          (acc, cnt) = fold (\<lambda>ui. fold (\<lambda>vi. accumulate_quad grid ui vi) [0..<n]) [0..<n]
             (accumulated_normals, normal_counts);
          grid' = fold (\<lambda>ui. fold (\<lambda>vi. store_normal normal acc cnt ui vi) [0..<n + 1])
             [0..<n + 1] grid
      in fold (\<lambda>ui. fold (\<lambda>vi. emit_quad grid' ui vi) [0..<n]) [0..<n] st)"

subsection \<open>The two evaluators\<close>

text \<open>
  The result is the returned \<open>int\<close> and the renderer after the call. The messages written to
  \<open>std::cerr\<close> are not part of the model. The sphere evaluator raises \<open>zmin\<close> to \<open>-radius\<close>
  and lowers \<open>zmax\<close> to \<open>radius\<close>, and nothing else, before it takes \<open>asin(zmin/radius)\<close> and
  \<open>asin(zmax/radius)\<close>.
\<close>

definition rd_sqsphere ::
  "nat \<Rightarrow> REDirect \<Rightarrow> real \<Rightarrow> real \<Rightarrow> real \<Rightarrow> real \<Rightarrow> real \<Rightarrow> real \<Rightarrow> int \<times> REDirect" where
  "rd_sqsphere normal st radius north east zmin zmax thetamax =
     (let st0 = st\<lparr>obj_normal_flag := True\<rparr> in
      if zmin > zmax then (- 1, st0)
      else if radius \<le> 0 then (- 1, st0)
      else if thetamax \<le> 0 \<or> thetamax > 360 then (- 1, st0)
      else if zmin = zmax then (- 1, st0)
      else
        let zmin' = (if zmin < - radius then - radius else zmin);
            zmax' = (if zmax > radius then radius else zmax);
            phimin = asin_flt (zmin' / radius) * Fin 180 / Fin pi;
            phimax = asin_flt (zmax' / radius) * Fin 180 / Fin pi;
            grid = fill_grid (n_divisions st0)
               (sqsphere_point (n_divisions st0) radius north east phimin phimax thetamax)
        in (0, shade_and_emit normal grid st0))"

definition rd_sqtorus ::
  "nat \<Rightarrow> REDirect \<Rightarrow> real \<Rightarrow> real \<Rightarrow> real \<Rightarrow> real \<Rightarrow> real \<Rightarrow> real \<Rightarrow> real \<Rightarrow> int \<times> REDirect" where
  "rd_sqtorus normal st radius1 radius2 north east phimin phimax thetamax =
     (let st0 = st\<lparr>obj_normal_flag := True\<rparr> in
      if radius1 \<le> 0 \<or> radius2 \<le> 0 then (- 1, st0)
      else if thetamax \<le> 0 \<or> thetamax > 360 then (- 1, st0)
      else if phimin \<ge> phimax then (- 1, st0)
      else
        let phimin' = (if phimin < - 180 then - 180 else phimin);
            phimax' = (if phimax > 180 then 180 else phimax);
            grid = fill_grid (n_divisions st0)
               (sqtorus_point (n_divisions st0) radius1 radius2 north east phimin' phimax' thetamax)
        in (0, shade_and_emit normal grid st0))"

text \<open>The points handed to the renderer between two of its states.\<close>

definition emitted :: "REDirect \<Rightarrow> REDirect \<Rightarrow> attr_point list" where
  "emitted st st' = map fst (drop (length (pipeline st)) (pipeline st'))"

subsection \<open>Predicates for the properties of the static mode\<close>

text \<open>The points with index below \<open>m\<close> are the active ones.\<close>

definition prefix_active :: "nat \<Rightarrow> TrackPoint list \<Rightarrow> bool" where
  "prefix_active m ps \<longleftrightarrow> (\<forall>k<length ps. tp_active (ps ! k) \<longleftrightarrow> k < m)"



subsection \<open>Predicates for the properties of the superquadrics\<close>

text \<open>The point lies on the round sphere of the given radius about the origin.\<close>

definition on_sphere :: "real \<Rightarrow> attr_point \<Rightarrow> bool" where
  "on_sphere radius p \<longleftrightarrow> p 0 * p 0 + p 1 * p 1 + p 2 * p 2 = Fin (radius * radius)"

text \<open>The three coordinates of the point are NaN.\<close>

definition nan_point :: "attr_point \<Rightarrow> bool" where
  "nan_point p \<longleftrightarrow> p 0 = NaN \<and> p 1 = NaN \<and> p 2 = NaN"

text \<open>A grid of the full size all of whose points satisfy \<open>P\<close>.\<close>

definition grid_all :: "nat \<Rightarrow> (attr_point \<Rightarrow> bool) \<Rightarrow> attr_point list list \<Rightarrow> bool" where
  "grid_all n P grid \<longleftrightarrow>
     length grid = n + 1 \<and> (\<forall>ui\<le>n. length (grid ! ui) = n + 1 \<and> (\<forall>vi\<le>n. P (grid ! ui ! vi)))"

text \<open>
  The renderer \<open>st'\<close> has received what \<open>st\<close> had received, followed by points that all
  satisfy \<open>P\<close>.
\<close>

definition extends :: "(attr_point \<Rightarrow> bool) \<Rightarrow> REDirect \<Rightarrow> REDirect \<Rightarrow> bool" where
  "extends P st st' \<longleftrightarrow>
     (\<exists>ps. pipeline st' = pipeline st @ ps \<and> (\<forall>q\<in>set ps. P (fst q)))"

text \<open>A renderer with one division that has received nothing yet, for the concrete runs.\<close>

definition example_renderer :: REDirect where
  "example_renderer =
     \<lparr>n_divisions = 1, obj_normal_flag = False, poly_normal = (Fin 0, Fin 0, Fin 0),
      pipeline = []\<rparr>"

subsection \<open>Predicates for the properties of the terrain\<close>

text \<open>A grid of \<open>N + 1\<close> rows of \<open>N + 1\<close> cells.\<close>

definition wf_grid :: "nat \<Rightarrow> height_grid \<Rightarrow> bool" where
  "wf_grid N grid \<longleftrightarrow> length grid = N + 1 \<and> (\<forall>x\<le>N. length (grid ! x) = N + 1)"

text \<open>
  Two states of the loops are both of the full size, hold the same generator and agree on
  the cells of \<open>S\<close>.
\<close>

definition agree :: "nat \<Rightarrow> (nat \<times> nat) set \<Rightarrow> terrain_state \<Rightarrow> terrain_state \<Rightarrow> bool" where
  "agree N S s1 s2 \<longleftrightarrow>
     snd s1 = snd s2 \<and> wf_grid N (fst s1) \<and> wf_grid N (fst s2) \<and>
     (\<forall>p\<in>S. fst s1 ! fst p ! snd p = fst s2 ! fst p ! snd p)"

text \<open>The values \<open>a, a + step, a + 2 * step, ...\<close> below \<open>bound\<close> that a loop with a stride visits.\<close>

definition steps :: "nat \<Rightarrow> nat \<Rightarrow> nat \<Rightarrow> nat set" where
  "steps a bound step = {x. \<exists>k. x = a + k * step \<and> x < bound}"

text \<open>
  The index sets of a stage with half stride \<open>d\<close> (and stride \<open>2 * d\<close>) on a grid with
  largest index \<open>N\<close>: the odd multiples of \<open>d\<close>, the even multiples, the even multiples
  strictly inside, and all multiples.
\<close>

definition centres :: "nat \<Rightarrow> nat \<Rightarrow> nat set" where
  "centres d N = steps d N (2 * d)"

definition evens :: "nat \<Rightarrow> nat \<Rightarrow> nat set" where
  "evens d N = steps 0 (N + 1) (2 * d)"

definition inner :: "nat \<Rightarrow> nat \<Rightarrow> nat set" where
  "inner d N = steps (2 * d) N (2 * d)"

definition lattice :: "nat \<Rightarrow> nat \<Rightarrow> nat set" where
  "lattice d N = steps 0 (N + 1) d"

text \<open>A terrain object with a 2 by 2 grid and a stand-in for the library generator.\<close>

definition example_terrain :: "real \<Rightarrow> real \<Rightarrow> FractalTerrain" where
  "example_terrain lo hi =
     \<lparr>ft_n = 0, ft_D = 2.5, ft_H = 0.5, ft_seed = 42, ft_sigma = 1,
      ft_grid = [[lo, hi], [hi, lo]], ft_gauss = sconst 0\<rparr>"

definition example_stream :: "int \<Rightarrow> rng" where
  "example_stream seed = sconst (of_int seed / 100)"

chapter \<open>Properties\<close>

section \<open>Dynamic mode\<close>

subsection \<open>The branches of \<open>Neutron::update\<close>\<close>

lemma drawn_iff:
  "drawn dt n g = NoInteraction \<longleftrightarrow> \<not> shd g < interaction_prob dt (energy_group n)"
  "drawn dt n g = Scatter \<longleftrightarrow> shd g < interaction_prob dt (energy_group n) \<and>
      shd (stl g) < 1 - absorption_probability - fission_probability"
  "drawn dt n g = Absorb \<longleftrightarrow> shd g < interaction_prob dt (energy_group n) \<and>
      \<not> shd (stl g) < 1 - absorption_probability - fission_probability \<and>
      shd (stl g) < 1 - fission_probability"
  "drawn dt n g = Fission \<longleftrightarrow> shd g < interaction_prob dt (energy_group n) \<and>
      \<not> shd (stl g) < 1 - absorption_probability - fission_probability \<and>
      \<not> shd (stl g) < 1 - fission_probability"
  by (simp_all add: drawn_def Let_def)

lemma update_inactive:
  "\<not> active (neutrons sim ! i) \<Longrightarrow> Neutron_update i dt sim = sim"
  by (simp add: Neutron_update_def)

lemma update_expired:
  "active (neutrons sim ! i) \<Longrightarrow> lifetime (neutrons sim ! i) + dt > max_lifetime \<Longrightarrow>
   Neutron_update i dt sim =
     sim\<lparr>neutrons := (neutrons sim)[i := (neutrons sim ! i)
            \<lparr>lifetime := lifetime (neutrons sim ! i) + dt, active := False\<rparr>]\<rparr>"
  by (simp add: Neutron_update_def Let_def)

lemma update_none:
  "active (neutrons sim ! i) \<Longrightarrow> \<not> lifetime (neutrons sim ! i) + dt > max_lifetime \<Longrightarrow>
   drawn dt (neutrons sim ! i) (random_gen sim) = NoInteraction \<Longrightarrow>
   Neutron_update i dt sim =
     sim\<lparr>neutrons := (neutrons sim)[i := advance dt ((neutrons sim ! i)
            \<lparr>lifetime := lifetime (neutrons sim ! i) + dt\<rparr>)],
         random_gen := stl (random_gen sim)\<rparr>"
  by (simp add: Neutron_update_def Let_def drawn_iff getFloat_def)

lemma update_scatter:
  "active (neutrons sim ! i) \<Longrightarrow> \<not> lifetime (neutrons sim ! i) + dt > max_lifetime \<Longrightarrow>
   drawn dt (neutrons sim ! i) (random_gen sim) = Scatter \<Longrightarrow>
   Neutron_update i dt sim =
     sim\<lparr>neutrons := (neutrons sim)[i := advance dt ((neutrons sim ! i)
            \<lparr>lifetime := lifetime (neutrons sim ! i) + dt,
             velocity := fst (randomDirection (stl (stl (random_gen sim)))),
             energy_group := scatter_loop (energy_group (neutrons sim ! i))
                (shd (stl (stl (stl (stl (random_gen sim)))))) 0 0\<rparr>)],
         random_gen := stl (stl (stl (stl (stl (random_gen sim)))))\<rparr>"
  by (simp add: Neutron_update_def Let_def drawn_iff getFloat_def randomDirection_def split_beta)

lemma update_absorb:
  "active (neutrons sim ! i) \<Longrightarrow> \<not> lifetime (neutrons sim ! i) + dt > max_lifetime \<Longrightarrow>
   drawn dt (neutrons sim ! i) (random_gen sim) = Absorb \<Longrightarrow>
   Neutron_update i dt sim =
     sim\<lparr>neutrons := (neutrons sim)[i := (neutrons sim ! i)
            \<lparr>lifetime := lifetime (neutrons sim ! i) + dt, active := False\<rparr>],
         random_gen := stl (stl (random_gen sim))\<rparr>"
  by (simp add: Neutron_update_def Let_def drawn_iff getFloat_def)

lemma update_fission:
  "active (neutrons sim ! i) \<Longrightarrow> \<not> lifetime (neutrons sim ! i) + dt > max_lifetime \<Longrightarrow>
   drawn dt (neutrons sim ! i) (random_gen sim) = Fission \<Longrightarrow>
   Neutron_update i dt sim =
     (let n2 = (neutrons sim ! i)\<lparr>lifetime := lifetime (neutrons sim ! i) + dt, active := False\<rparr>;
          g3 = stl (stl (stl (random_gen sim)));
          sp = spawn_loop (position n2)
                (if shd (stl (stl (random_gen sim))) < 0.5 then 3 else 2) 0
                ((neutrons sim)[i := n2]) g3
      in sim\<lparr>neutrons := fst sp,
             fission_events := record_fission
                \<lparr>fe_position = position n2, fe_time = simulation_time sim\<rparr> (fission_events sim),
             random_gen := snd sp\<rparr>)"
  by (simp add: Neutron_update_def Let_def drawn_iff getFloat_def split_beta)

subsection \<open>Helper facts about the loops\<close>

lemma scatter_loop_step:
  "t < 3 \<Longrightarrow> scatter_loop eg r c t =
     (if r < c + SCATTERING_PROBABILITIES ! eg ! t then t
      else scatter_loop eg r (c + SCATTERING_PROBABILITIES ! eg ! t) (Suc t))"
  by (subst scatter_loop.simps) (simp add: NUM_ENERGY_GROUPS_def Let_def)

lemma scatter_loop_end: "3 \<le> t \<Longrightarrow> scatter_loop eg r c t = eg"
  by (subst scatter_loop.simps) (simp add: NUM_ENERGY_GROUPS_def)

lemma scatter_loop_unrolled:
  "scatter_loop eg r 0 0 =
     (let row = SCATTERING_PROBABILITIES ! eg in
      if r < 0 + row ! 0 then 0
      else if r < 0 + row ! 0 + row ! 1 then 1
      else if r < 0 + row ! 0 + row ! 1 + row ! 2 then 2
      else eg)"
  by (simp add: scatter_loop_step scatter_loop_end Let_def numeral_2_eq_2)

lemma scatter_loop_ge:
  assumes "0 \<le> r" and "eg < 3"
  shows "eg \<le> scatter_loop eg r 0 0 \<and> scatter_loop eg r 0 0 < 3"
proof -
  from assms(2) consider "eg = 0" | "eg = 1" | "eg = 2" by linarith
  then show ?thesis
    using assms(1)
    by cases (simp_all add: scatter_loop_unrolled SCATTERING_PROBABILITIES_def Let_def)
qed

lemma spawn_loop_length: "length (fst (spawn_loop pos k c ns g)) = length ns"
  by (induction ns arbitrary: c g) (auto simp: Let_def split_beta)

lemma spawn_loop_position:
  "j < length ns \<Longrightarrow> position (ns ! j) = pos \<Longrightarrow>
   position (fst (spawn_loop pos k c ns g) ! j) = pos"
  by (induction ns arbitrary: c g j)
     (auto simp: Let_def split_beta initFromFission_def nth_Cons split: nat.splits)

lemma spawn_loop_active:
  "j < length ns \<Longrightarrow> active (ns ! j) \<Longrightarrow> fst (spawn_loop pos k c ns g) ! j = ns ! j"
  by (induction ns arbitrary: c g j) (auto simp: Let_def split_beta nth_Cons split: nat.splits)

lemma record_fission_last: "record_fission e es \<noteq> [] \<and> last (record_fission e es) = e"
  by (cases es) (auto simp: record_fission_def Let_def)

lemma advance_position:
  "position (advance dt n) = moved_by dt (velocity n) (energy_group n) (position n)"
  by (simp add: advance_def moved_by_def Let_def split_beta)

lemma advance_fields:
  "velocity (advance dt n) = velocity n" "energy_group (advance dt n) = energy_group n"
  "lifetime (advance dt n) = lifetime n"
  by (simp_all add: advance_def Let_def split_beta)

lemma advance_active:
  "active (advance dt n) \<longleftrightarrow> active n \<and> \<not> radial (position (advance dt n)) > max_distance"
  by (simp add: advance_def Let_def split_beta)

lemma Neutron_update_length:
  "length (neutrons (Neutron_update i dt sim)) = length (neutrons sim)"
  by (simp add: Neutron_update_def Let_def split_beta getFloat_def spawn_loop_length)

lemma Neutron_update_others:
  assumes "j < length (neutrons sim)" "j \<noteq> i" "active (neutrons sim ! j)"
  shows "neutrons (Neutron_update i dt sim) ! j = neutrons sim ! j"
  using assms
  by (auto simp: Neutron_update_def Let_def split_beta getFloat_def spawn_loop_active)

lemma fold_init_slot_beyond:
  "k \<le> j \<Longrightarrow> fst (fold init_slot [0..<k] (ns, g)) ! j = ns ! j"
  by (induction k) (auto simp: init_slot_def Let_def split_beta)

lemma NeutronSimulation_new_beyond:
  "num div 3 \<le> j \<Longrightarrow> j < num \<Longrightarrow>
   neutrons (NeutronSimulation_new num g) ! j = Neutron_default"
  by (simp add: NeutronSimulation_new_def Let_def split_beta fold_init_slot_beyond)

lemmas example_defs =
  example_sim_def drawn_def interaction_prob_def Neutron_update_def Let_def getFloat_def
  randomDirection_def advance_def speed_of_def GROUP_ENERGIES_def mean_free_path_def
  absorption_probability_def fission_probability_def max_lifetime_def radial_def
  max_distance_def NUM_ENERGY_GROUPS_def SCATTERING_PROBABILITIES_def Neutron_default_def
  scatter_loop_unrolled

lemma exp_eighth: "\<not> (9 / 10 :: real) < 1 - exp (- (1 / 8))"
  using exp_ge_add_one_self [of "- (1 / 8) :: real"] by simp

subsection \<open>C1: when the position is advanced\<close>

text \<open>
  Claim C1 says that the position is advanced only in a step without interaction, so that a
  neutron that scatters, is absorbed or fissions keeps its position in that step. The
  scattering branch of \<open>Neutron::update\<close> has no \<open>return\<close>: after the new direction and
  energy group are drawn, control falls through to the position update. The run below is such
  a step (C1, as stated, fails on it): with every draw equal to 0 the neutron of
  \<open>example_sim\<close> scatters (the first draw is below the interaction probability, the second
  below 0.75), and it ends the step at \<open>(0, 0, - sqrt 10)\<close>, not at the origin.
\<close>

theorem scatter_step_moves:
  "active (neutrons (example_sim 0 (sconst 0)) ! 0) \<and>
   drawn (1 / 2) (neutrons (example_sim 0 (sconst 0)) ! 0) (sconst 0) = Scatter \<and>
   position (neutrons (example_sim 0 (sconst 0)) ! 0) = (0, 0, 0) \<and>
   position (neutrons (Neutron_update 0 (1 / 2) (example_sim 0 (sconst 0))) ! 0) = (0, 0, - sqrt 10)"
  by (simp add: example_defs)

text \<open>
  C1 as amended: for an active neutron, \<open>Neutron::update\<close> leaves the position unchanged
  exactly when the neutron is removed before the move (its lifetime exceeds \<open>max_lifetime\<close>,
  or an absorption or a fission is drawn). In a step without interaction the position
  advances by \<open>velocity * speed(energy_group) * dt\<close>; in a scattering step it advances as
  well, by the freshly drawn direction times the speed of the freshly drawn energy group
  times \<open>dt\<close>.
\<close>

theorem position_advance:
  assumes "i < length (neutrons sim)" and "active (neutrons sim ! i)"
  shows "let n = neutrons sim ! i; g = random_gen sim; n' = neutrons (Neutron_update i dt sim) ! i in
    (if lifetime n + dt > max_lifetime \<or> drawn dt n g = Absorb \<or> drawn dt n g = Fission
       then position n' = position n
     else if drawn dt n g = NoInteraction
       then position n' = moved_by dt (velocity n) (energy_group n) (position n)
     else velocity n' = fst (randomDirection (stl (stl g))) \<and>
          energy_group n' = scatter_loop (energy_group n) (shd (stl (stl (stl (stl g))))) 0 0 \<and>
          position n' = moved_by dt (velocity n') (energy_group n') (position n))"
proof (cases "lifetime (neutrons sim ! i) + dt > max_lifetime")
  case True
  with assms show ?thesis by (simp add: update_expired Let_def)
next
  case False
  show ?thesis
  proof (cases "drawn dt (neutrons sim ! i) (random_gen sim)")
    case NoInteraction
    with assms False show ?thesis
      by (simp add: update_none Let_def advance_position advance_fields)
  next
    case Scatter
    with assms False show ?thesis
      by (simp add: update_scatter Let_def advance_position advance_fields)
  next
    case Absorb
    with assms False show ?thesis by (simp add: update_absorb Let_def)
  next
    case Fission
    with assms False show ?thesis
      by (simp add: update_fission Let_def spawn_loop_position)
  qed
qed

text \<open>A step without interaction (every draw is 0.9): the neutron moves to \<open>(sqrt 10, 0, 0)\<close>.\<close>

theorem position_advance_witness:
  "0 < length (neutrons (example_sim 0 (sconst (9 / 10)))) \<and>
   active (neutrons (example_sim 0 (sconst (9 / 10))) ! 0) \<and>
   drawn (1 / 2) (neutrons (example_sim 0 (sconst (9 / 10))) ! 0) (sconst (9 / 10)) = NoInteraction \<and>
   position (neutrons (Neutron_update 0 (1 / 2) (example_sim 0 (sconst (9 / 10)))) ! 0)
     = (sqrt 10, 0, 0)"
  using position_advance [of 0 "example_sim 0 (sconst (9 / 10))" "1 / 2"] exp_eighth
  by (simp add: example_sim_def drawn_def interaction_prob_def Let_def moved_by_def speed_of_def
      GROUP_ENERGIES_def mean_free_path_def max_lifetime_def)

subsection \<open>C6: causes of deactivation\<close>

text \<open>
  Claim C6 says that every inactive neutron has a cause of deactivation: lifetime above
  \<open>max_lifetime\<close>, distance above \<open>max_distance\<close>, a recorded fission, or a drawn absorption.
  The pool is created by \<open>resize\<close>, which default-constructs every slot inactive, and the
  constructor activates only the first third. With the default \<open>num_neutrons = 250\<close> the last
  slot is inactive right after construction (C6, as stated, fails there): lifetime 0, at the
  origin, no fission event recorded, and no step has run in which an absorption could have
  been drawn.
\<close>

theorem inactive_without_cause:
  "\<not> active (neutrons (NeutronSimulation_new 250 (sconst 0)) ! 249) \<and>
   \<not> lifetime (neutrons (NeutronSimulation_new 250 (sconst 0)) ! 249) > max_lifetime \<and>
   \<not> radial (position (neutrons (NeutronSimulation_new 250 (sconst 0)) ! 249)) > max_distance \<and>
   fission_events (NeutronSimulation_new 250 (sconst 0)) = [] \<and>
   simulation_time (NeutronSimulation_new 250 (sconst 0)) = 0"
  by (simp add: NeutronSimulation_new_beyond Neutron_default_def max_lifetime_def radial_def max_distance_def)
     (simp add: NeutronSimulation_new_def Let_def split_beta)

text \<open>
  C6 as amended: a neutron that is active before its own \<open>Neutron::update\<close> and inactive after
  it was deactivated in that step for one of four causes: its lifetime exceeded
  \<open>max_lifetime\<close>; an absorption was drawn; a fission was drawn, and then the newest recorded
  fission event carries its position and the simulation time; or the step moved it (without
  interaction or after a scattering) beyond \<open>max_distance\<close>. (The update of another slot
  never deactivates it: \<open>Neutron_update_others\<close>.) Slots that were never activated are
  inactive without any cause.
\<close>

theorem deactivation_has_cause:
  assumes "i < length (neutrons sim)" and "active (neutrons sim ! i)"
    and "\<not> active (neutrons (Neutron_update i dt sim) ! i)"
  shows "let n = neutrons sim ! i; g = random_gen sim; sim' = Neutron_update i dt sim;
             n' = neutrons sim' ! i in
    lifetime n + dt > max_lifetime
    \<or> drawn dt n g = Absorb
    \<or> (drawn dt n g = Fission \<and> fission_events sim' \<noteq> [] \<and>
        last (fission_events sim') = \<lparr>fe_position = position n, fe_time = simulation_time sim\<rparr>)
    \<or> ((drawn dt n g = NoInteraction \<or> drawn dt n g = Scatter) \<and>
        radial (position n') > max_distance)"
proof (cases "lifetime (neutrons sim ! i) + dt > max_lifetime")
  case True
  then show ?thesis by (simp add: Let_def)
next
  case False
  show ?thesis
  proof (cases "drawn dt (neutrons sim ! i) (random_gen sim)")
    case NoInteraction
    with assms False show ?thesis
      by (simp add: update_none Let_def advance_active)
  next
    case Scatter
    with assms False show ?thesis
      by (simp add: update_scatter Let_def advance_active)
  next
    case Absorb
    then show ?thesis by (simp add: Let_def)
  next
    case Fission
    with assms(1,2) False show ?thesis
      by (simp add: update_fission Let_def record_fission_last)
  qed
qed

text \<open>An absorption (the second draw, 0.8, lies between 0.75 and 0.85) deactivates the neutron.\<close>

theorem deactivation_has_cause_witness:
  "0 < length (neutrons (example_sim 0 (0 ## 8 / 10 ## sconst 0))) \<and>
   active (neutrons (example_sim 0 (0 ## 8 / 10 ## sconst 0)) ! 0) \<and>
   \<not> active (neutrons (Neutron_update 0 (1 / 2) (example_sim 0 (0 ## 8 / 10 ## sconst 0))) ! 0) \<and>
   drawn (1 / 2) (neutrons (example_sim 0 (0 ## 8 / 10 ## sconst 0)) ! 0) (0 ## 8 / 10 ## sconst 0)
     = Absorb"
  using deactivation_has_cause [of 0 "example_sim 0 (0 ## 8 / 10 ## sconst 0)" "1 / 2"]
  by (simp add: example_defs)

subsection \<open>C7: scattering never raises the energy\<close>

text \<open>
  Claim C7: in every scattering step, from every energy group, the group drawn from
  \<open>SCATTERING_PROBABILITIES\<close> by cumulative thresholding is not a group of higher energy:
  the group index does not decrease, the group energy does not increase, and a Thermal
  neutron (group 2) stays Thermal. The draw \<open>scatter_r\<close> is the fifth value read in the
  step and is not negative, as a value of \<open>uniform_real_distribution(0, 1)\<close>.
\<close>

theorem scatter_never_raises_energy:
  assumes "i < length (neutrons sim)" and "active (neutrons sim ! i)"
    and "energy_group (neutrons sim ! i) < NUM_ENERGY_GROUPS"
    and "\<not> lifetime (neutrons sim ! i) + dt > max_lifetime"
    and "drawn dt (neutrons sim ! i) (random_gen sim) = Scatter"
    and "0 \<le> shd (stl (stl (stl (stl (random_gen sim)))))"
  shows "let n = neutrons sim ! i; n' = neutrons (Neutron_update i dt sim) ! i in
    energy_group n \<le> energy_group n' \<and> energy_group n' < NUM_ENERGY_GROUPS \<and>
    GROUP_ENERGIES ! energy_group n' \<le> GROUP_ENERGIES ! energy_group n \<and>
    (energy_group n = 2 \<longrightarrow> energy_group n' = 2)"
proof -
  let ?n = "neutrons sim ! i"
  let ?r = "shd (stl (stl (stl (stl (random_gen sim)))))"
  have eg: "energy_group (neutrons (Neutron_update i dt sim) ! i) = scatter_loop (energy_group ?n) ?r 0 0"
    using assms(1,2,4,5) by (simp add: update_scatter advance_fields)
  have "energy_group ?n < 3" using assms(3) by (simp add: NUM_ENERGY_GROUPS_def)
  from scatter_loop_ge[OF assms(6) this]
  have b: "energy_group ?n \<le> scatter_loop (energy_group ?n) ?r 0 0" "scatter_loop (energy_group ?n) ?r 0 0 < 3"
    by auto
  have mono: "\<And>a b. a \<le> b \<Longrightarrow> b < (3::nat) \<Longrightarrow> GROUP_ENERGIES ! b \<le> GROUP_ENERGIES ! a"
    by (auto simp: GROUP_ENERGIES_def numeral_3_eq_3 less_Suc_eq nth_Cons split: nat.splits)
  show ?thesis using b mono[OF b] eg by (auto simp add: Let_def NUM_ENERGY_GROUPS_def)
qed

text \<open>A Thermal neutron scatters (every draw 0) and stays in group 2.\<close>

theorem scatter_never_raises_energy_witness:
  "0 < length (neutrons (example_sim 2 (sconst 0))) \<and>
   active (neutrons (example_sim 2 (sconst 0)) ! 0) \<and>
   energy_group (neutrons (example_sim 2 (sconst 0)) ! 0) < NUM_ENERGY_GROUPS \<and>
   \<not> lifetime (neutrons (example_sim 2 (sconst 0)) ! 0) + 1 / 2 > max_lifetime \<and>
   drawn (1 / 2) (neutrons (example_sim 2 (sconst 0)) ! 0) (sconst 0) = Scatter \<and>
   energy_group (neutrons (Neutron_update 0 (1 / 2) (example_sim 2 (sconst 0))) ! 0) = 2"
  using scatter_never_raises_energy [of 0 "example_sim 2 (sconst 0)" "1 / 2"]
  by (simp add: example_sim_def drawn_def interaction_prob_def Let_def GROUP_ENERGIES_def
      mean_free_path_def max_lifetime_def NUM_ENERGY_GROUPS_def absorption_probability_def
      fission_probability_def)

section \<open>Static mode\<close>

subsection \<open>The flags written by the main loop\<close>

lemma deactivate_from_length [simp]: "length (deactivate_from i ps) = length ps"
proof -
  have "length (fold (\<lambda>j ps. ps[j := (ps ! j)\<lparr>tp_active := False\<rparr>]) js ps) = length ps" for js
    by (induction js arbitrary: ps) auto
  then show ?thesis by (simp add: deactivate_from_def)
qed

lemma fold_deactivate_nth:
  "k < length ps \<Longrightarrow>
   fold (\<lambda>j ps. ps[j := (ps ! j)\<lparr>tp_active := False\<rparr>]) js ps ! k =
     (if k \<in> set js then (ps ! k)\<lparr>tp_active := False\<rparr> else ps ! k)"
proof (induction js arbitrary: ps)
  case Nil
  then show ?case by simp
next
  case (Cons j js)
  then show ?case by (cases "j = k") (auto simp: nth_list_update)
qed

lemma deactivate_from_nth:
  "k < length ps \<Longrightarrow> length ps = POINTS_PER_TRACK \<Longrightarrow>
   deactivate_from i ps ! k = (if i \<le> k then (ps ! k)\<lparr>tp_active := False\<rparr> else ps ! k)"
  by (simp add: deactivate_from_def fold_deactivate_nth)

lemma track_loop_length [simp]:
  "length (fst (track_loop i pos dir ps g)) = length ps"
proof (induction i pos dir ps g rule: track_loop.induct)
  case (1 i pos dir points g)
  show ?case
    by (subst track_loop.simps) (use 1 in \<open>simp add: Let_def\<close>)
qed

text \<open>Loop invariant for the flags: everything before \<open>i\<close> is active.\<close>

lemma track_loop_prefix:
  assumes "length ps = POINTS_PER_TRACK" and "0 < i" and "i \<le> POINTS_PER_TRACK"
    and "\<forall>k<i. tp_active (ps ! k)"
  shows "\<exists>m. i \<le> m \<and> m \<le> POINTS_PER_TRACK \<and> prefix_active m (fst (track_loop i pos dir ps g))"
  using assms
proof (induction i pos dir ps g rule: track_loop.induct)
  case (1 i pos dir points g)
  show ?case
  proof (cases "i < POINTS_PER_TRACK")
    case False
    with 1(3-) have "i = POINTS_PER_TRACK" by simp
    with 1(3-) show ?thesis
      by (subst track_loop.simps) (auto simp: prefix_active_def)
  next
    case True
    from 1(4,6) have act: "tp_active (points ! (i - 1))" by simp
    let ?r = "track_step pos dir g"
    let ?ps = "points[i := (points ! i)
                 \<lparr>tp_position := ts_pos ?r, tp_color := ts_color ?r, tp_active := True\<rparr>]"
    have all: "\<forall>k<i + 1. tp_active (?ps ! k)"
      using 1(3,6) True by (auto simp: nth_list_update less_Suc_eq)
    show ?thesis
    proof (cases "ts_absorbed ?r")
      case True
      have "prefix_active (i + 1) (deactivate_from (i + 1) ?ps)"
        using all 1(3) \<open>i < POINTS_PER_TRACK\<close>
        by (auto simp: prefix_active_def deactivate_from_nth)
      with True act \<open>i < POINTS_PER_TRACK\<close> show ?thesis
        by (subst track_loop.simps) (auto simp: Let_def intro!: exI[of _ "i + 1"])
    next
      case False
      have "\<exists>m\<ge>i + 1. m \<le> POINTS_PER_TRACK \<and>
          prefix_active m (fst (track_loop (i + 1) (ts_pos ?r) (ts_dir ?r) ?ps (ts_gen ?r)))"
        using 1(2)[OF True _ refl refl False] act 1(3) True all by simp
      then obtain m where "i + 1 \<le> m" "m \<le> POINTS_PER_TRACK"
        "prefix_active m (fst (track_loop (i + 1) (ts_pos ?r) (ts_dir ?r) ?ps (ts_gen ?r)))"
        by blast
      with False act True show ?thesis
        by (subst track_loop.simps) (auto simp: Let_def intro!: exI[of _ m])
    qed
  qed
qed

subsection \<open>Unit directions and finite positions\<close>
















lemma track_loop_absorb:
  assumes "i < POINTS_PER_TRACK" and "tp_active (ps ! (i - 1))"
    and "ts_absorbed (track_step pos dir g)"
  shows "track_loop i pos dir ps g =
    (deactivate_from (i + 1) (ps[i := (ps ! i)
        \<lparr>tp_position := ts_pos (track_step pos dir g),
         tp_color := ts_color (track_step pos dir g), tp_active := True\<rparr>]),
     ts_gen (track_step pos dir g))"
  using assms by (subst track_loop.simps) (simp add: Let_def)

lemma region_absorption_ge: "1 / 10 \<le> snd (region d)"
  by (simp add: region_def CORE_ABSORPTION_def REFLECTOR_ABSORPTION_def OUTER_ABSORPTION_def)

lemma track_step_absorbed_iff:
  "ts_absorbed (track_step pos dir g) \<longleftrightarrow>
     shd (stl (stl (stl g))) < snd (region (dist_of (ts_pos (track_step pos dir g))))"
  by (simp add: track_step_def Let_def split_beta uniform_dist_def)

lemma track_step_absorbed:
  "shd (stl (stl (stl g))) < 1 / 10 \<Longrightarrow> ts_absorbed (track_step pos dir g)"
  unfolding track_step_absorbed_iff
  using region_absorption_ge [of "dist_of (ts_pos (track_step pos dir g))"] by linarith

text \<open>The shape of \<open>generate\<close>: the first point is written and activated, then the loop runs.\<close>

lemma generate_loop:
  "\<exists>pos dir p0. generate ps g = track_loop 1 pos dir (ps[0 := p0\<lparr>tp_active := True\<rparr>])
      (stl (stl (stl (stl (stl (stl g))))))"
  by (simp add: generate_def Let_def split_beta uniform_dist_def) (metis TrackPoint.update_convs(3))

lemma generate_prefix:
  assumes "length ps = POINTS_PER_TRACK"
  shows "\<exists>m. 1 \<le> m \<and> m \<le> POINTS_PER_TRACK \<and> prefix_active m (fst (generate ps g))"
proof -
  obtain pos dir p0 g' where gen: "generate ps g = track_loop 1 pos dir (ps[0 := p0\<lparr>tp_active := True\<rparr>]) g'"
    using generate_loop by blast
  have "\<forall>k<1. tp_active (ps[0 := p0\<lparr>tp_active := True\<rparr>] ! k)"
    using assms by (simp add: POINTS_PER_TRACK_def)
  from track_loop_prefix[OF _ _ _ this, of pos dir g'] assms show ?thesis
    by (simp add: gen POINTS_PER_TRACK_def)
qed

lemma generate_length: "length (fst (generate ps g)) = length ps"
  using generate_loop [of ps g] by auto

lemma NeutronTrack_new_length: "length NeutronTrack_new = POINTS_PER_TRACK"
  by (simp add: NeutronTrack_new_def)

lemma example_track: "prefix_active 2 (fst (generate NeutronTrack_new (sconst 0)))"
proof -
  obtain pos dir p0 where gen: "generate NeutronTrack_new (sconst 0) =
      track_loop 1 pos dir (NeutronTrack_new[0 := p0\<lparr>tp_active := True\<rparr>]) (sconst 0)"
    using generate_loop [of NeutronTrack_new "sconst 0"] by auto
  let ?ps = "NeutronTrack_new[0 := p0\<lparr>tp_active := True\<rparr>]"
  have abs: "ts_absorbed (track_step pos dir (sconst 0))"
    by (rule track_step_absorbed) simp
  have a0: "tp_active (?ps ! (1 - 1))"
    by (simp add: NeutronTrack_new_length POINTS_PER_TRACK_def)
  have l: "1 < POINTS_PER_TRACK" by (simp add: POINTS_PER_TRACK_def)
  have "prefix_active 2 (fst (track_loop 1 pos dir ?ps (sconst 0)))"
    unfolding track_loop_absorb [OF l a0 abs] fst_conv
    by (auto simp: prefix_active_def deactivate_from_nth NeutronTrack_new_length
        POINTS_PER_TRACK_def nth_list_update less_Suc_eq numeral_2_eq_2)
  then show ?thesis by (simp only: gen)
qed



subsection \<open>C10: the active points are a prefix of the track\<close>

text \<open>
  Claim C10: after \<open>NeutronTrack::generate\<close> the first point is active, and an inactive point
  is followed by inactive points only, so the active points are a contiguous prefix of the
  track. This holds for every track of \<open>POINTS_PER_TRACK\<close> points, whatever its flags were
  before the call and whatever the engine returns.
\<close>

theorem active_prefix:
  assumes "length ps = POINTS_PER_TRACK"
  shows "tp_active (fst (generate ps g) ! 0) \<and>
    (\<forall>i j. i < j \<and> j < POINTS_PER_TRACK \<and> \<not> tp_active (fst (generate ps g) ! i)
        \<longrightarrow> \<not> tp_active (fst (generate ps g) ! j))"
proof -
  from generate_prefix[OF assms, of g] obtain m where
    m: "1 \<le> m" "m \<le> POINTS_PER_TRACK" "prefix_active m (fst (generate ps g))" by blast
  have l: "length (fst (generate ps g)) = POINTS_PER_TRACK"
    by (simp add: generate_length assms)
  show ?thesis
    using m l unfolding prefix_active_def by (auto simp: POINTS_PER_TRACK_def)
qed

text \<open>
  With every draw 0 the track is absorbed at its second point: points 0 and 1 are active,
  points 2 and 3 (and all later ones) are not.
\<close>

theorem active_prefix_witness:
  "length NeutronTrack_new = POINTS_PER_TRACK \<and>
   tp_active (fst (generate NeutronTrack_new (sconst 0)) ! 0) \<and>
   \<not> tp_active (fst (generate NeutronTrack_new (sconst 0)) ! 2) \<and>
   \<not> tp_active (fst (generate NeutronTrack_new (sconst 0)) ! 3)"
  using active_prefix [OF NeutronTrack_new_length, of "sconst 0"] example_track
  by (auto simp: prefix_active_def generate_length NeutronTrack_new_length POINTS_PER_TRACK_def)

subsection \<open>C2: the renormalisation and NaN\<close>



section \<open>Superquadrics\<close>

subsection \<open>Arithmetic with NaN\<close>

lemma NaN_absorbs [simp]:
  fixes a :: flt
  shows "a + NaN = NaN" "NaN + a = NaN" "a - NaN = NaN" "NaN - a = NaN"
    "a * NaN = NaN" "NaN * a = NaN" "a / NaN = NaN" "NaN / a = NaN"
  by (cases a; simp)+

lemma pow_term_Fin:
  "pow_term (Fin v) e = Fin ((if v \<ge> 0 then 1 else - 1) * (if v = 0 \<and> e = 0 then 1 else \<bar>v\<bar> powr e))"
  by (simp add: pow_term_def)

lemma pow_term_one: "pow_term (Fin v) 1 = Fin v"
  by (simp add: pow_term_def)

lemma pow_term_NaN: "e \<noteq> 0 \<Longrightarrow> pow_term NaN e = NaN"
  by (simp add: pow_term_def)

lemma asin_flt_in_range:
  assumes "0 < r" and "- r \<le> z" and "z \<le> r"
  shows "asin_flt (z / r) = Fin (arcsin (z / r))"
  using assms by (simp add: asin_flt_def le_divide_eq divide_le_eq)

lemma asin_flt_above:
  assumes "0 < r" and "r < z"
  shows "asin_flt (z / r) = NaN"
  using assms by (simp add: asin_flt_def le_divide_eq divide_le_eq)

lemma asin_flt_below:
  assumes "0 < r" and "z < - r"
  shows "asin_flt (z / r) = NaN"
  using assms by (simp add: asin_flt_def le_divide_eq divide_le_eq)

subsection \<open>The points of the grid\<close>

lemma sqsphere_point_on_sphere:
  assumes "0 < n"
  shows "on_sphere radius (sqsphere_point n radius 1 1 (Fin phimin) (Fin phimax) thetamax ui vi)"
proof -
  have e: "radius * c * d * (radius * c * d) + radius * s * d * (radius * s * d)
         + radius * t * (radius * t) = (radius * radius) * ((c * c + s * s) * (d * d) + t * t)"
    for c s d t :: real
    by (simp add: algebra_simps)
  show ?thesis
    using assms
    by (simp add: on_sphere_def sqsphere_point_def Let_def pow_term_one e
        sin_cos_squared_add3 del: mult_cancel_left)
qed

text \<open>
  With \<open>phimin\<close> or \<open>phimax\<close> NaN the latitude of every grid point is NaN, and so are its
  three coordinates unless \<open>north\<close> is 0.
\<close>

lemma sqsphere_point_NaN:
  assumes "phimin = NaN \<or> phimax = NaN" and "north \<noteq> 0"
  shows "nan_point (sqsphere_point n radius north east phimin phimax thetamax ui vi)"
  using assms by (auto simp: nan_point_def sqsphere_point_def Let_def pow_term_NaN)

lemma fill_grid_nth:
  "ui \<le> n \<Longrightarrow> vi \<le> n \<Longrightarrow> fill_grid n f ! ui ! vi = f ui vi"
  by (simp add: fill_grid_def del: upt_Suc)

lemma fill_grid_length:
  "length (fill_grid n f) = n + 1" "ui \<le> n \<Longrightarrow> length (fill_grid n f ! ui) = n + 1"
  by (simp_all add: fill_grid_def del: upt_Suc)

lemma fill_grid_all: "(\<And>ui vi. P (f ui vi)) \<Longrightarrow> grid_all n P (fill_grid n f)"
  by (simp add: grid_all_def fill_grid_nth fill_grid_length)

subsection \<open>The normals leave the coordinates alone\<close>

lemma fold_preserves:
  assumes "\<And>x s. P s \<Longrightarrow> P (f x s)" and "P s"
  shows "P (fold f xs s)"
  using assms(2) by (induction xs arbitrary: s) (auto intro: assms(1))

lemma on_sphere_normal:
  "3 \<le> normal \<Longrightarrow> on_sphere r p \<Longrightarrow> on_sphere r (p(normal := a, normal + 1 := b, normal + 2 := c))"
  by (simp add: on_sphere_def)

lemma nan_point_normal:
  "3 \<le> normal \<Longrightarrow> nan_point p \<Longrightarrow> nan_point (p(normal := a, normal + 1 := b, normal + 2 := c))"
  by (simp add: nan_point_def)

lemma upd2_grid_all:
  assumes "grid_all n P grid" and "\<And>p. P p \<Longrightarrow> P (f p)"
  shows "grid_all n P (upd2 grid ui vi f)"
proof -
  have len: "length (upd2 grid ui vi f) = n + 1"
    using assms(1) by (simp add: grid_all_def upd2_def)
  have row: "length (upd2 grid ui vi f ! a) = n + 1 \<and> (\<forall>b\<le>n. P (upd2 grid ui vi f ! a ! b))"
    if "a \<le> n" for a
  proof (cases "a = ui")
    case True
    have "P ((grid ! ui)[vi := f (grid ! ui ! vi)] ! b)" if "b \<le> n" for b
      using assms \<open>a \<le> n\<close> that True
      by (cases "b = vi") (auto simp: grid_all_def nth_list_update)
    then show ?thesis
      using assms(1) that True by (simp add: grid_all_def upd2_def)
  next
    case False
    then show ?thesis
      using assms(1) that by (simp add: grid_all_def upd2_def)
  qed
  show ?thesis
    unfolding grid_all_def using len row by blast
qed

lemma store_normal_grid_all:
  assumes "\<And>p a b c. P p \<Longrightarrow> P (p(normal := a, normal + 1 := b, normal + 2 := c))"
    and "grid_all n P grid"
  shows "grid_all n P (store_normal normal acc cnt ui vi grid)"
proof (cases "cnt ! ui ! vi > 0")
  case False
  then show ?thesis using assms(2) by (simp add: store_normal_def)
next
  case True
  obtain a b c where upd: "store_normal normal acc cnt ui vi grid =
      upd2 grid ui vi (\<lambda>p. p(normal := a, normal + 1 := b, normal + 2 := c))"
    using True by (auto simp: store_normal_def Let_def split_beta)
  show ?thesis
    unfolding upd using assms(2)
    by (rule upd2_grid_all) (rule assms(1))
qed

lemma emit_quad_pipeline:
  "pipeline (emit_quad grid ui vi st) =
     pipeline st @ [(grid ! ui ! vi, MOVE), (grid ! (ui + 1) ! vi, MOVE),
                    (grid ! (ui + 1) ! (vi + 1), MOVE), (grid ! ui ! (vi + 1), DRAW)]"
  by (simp add: emit_quad_def poly_pipeline_def Let_def)

lemma extends_refl: "extends P st st"
  by (simp add: extends_def)

lemma extends_emit_quad:
  assumes "grid_all n P grid" and "ui < n" and "vi < n" and "extends P st st'"
  shows "extends P st (emit_quad grid ui vi st')"
proof -
  from assms(4) obtain ps where ps: "pipeline st' = pipeline st @ ps" "\<forall>q\<in>set ps. P (fst q)"
    by (auto simp: extends_def)
  have P: "P (grid ! a ! b)" if "a \<le> n" "b \<le> n" for a b
    using assms(1) that by (simp add: grid_all_def)
  show ?thesis
    unfolding extends_def emit_quad_pipeline ps(1)
    using ps(2) assms(2,3)
    by (intro exI[of _ "ps @ [(grid ! ui ! vi, MOVE), (grid ! (ui + 1) ! vi, MOVE),
                    (grid ! (ui + 1) ! (vi + 1), MOVE), (grid ! ui ! (vi + 1), DRAW)]"])
       (auto intro!: P)
qed

lemma fold_in_range:
  assumes "\<And>x s. x < n \<Longrightarrow> P s \<Longrightarrow> P (f x s)" and "P s"
  shows "P (fold f [0..<n] s)"
proof -
  have *: "P (fold f xs s)" if "set xs \<subseteq> {..<n}" for xs
    using that assms(2) by (induction xs arbitrary: s) (auto intro: assms(1))
  show ?thesis by (rule *) auto
qed

lemma shade_and_emit_extends:
  assumes "\<And>p a b c. P p \<Longrightarrow> P (p(normal := a, normal + 1 := b, normal + 2 := c))"
    and "grid_all (n_divisions st) P grid"
  shows "extends P st (shade_and_emit normal grid st)"
proof -
  let ?n = "n_divisions st"
  obtain acc cnt where ac: "fold (\<lambda>ui. fold (\<lambda>vi. accumulate_quad grid ui vi) [0..<?n]) [0..<?n]
      (replicate (?n + 1) (replicate (?n + 1) (Fin 0, Fin 0, Fin 0)),
       replicate (?n + 1) (replicate (?n + 1) 0))
      = (acc, cnt)"
    by (cases "fold (\<lambda>ui. fold (\<lambda>vi. accumulate_quad grid ui vi) [0..<?n]) [0..<?n]
      (replicate (?n + 1) (replicate (?n + 1) (Fin 0, Fin 0, Fin 0)),
       replicate (?n + 1) (replicate (?n + 1) (0::nat)))") auto
  let ?grid' = "fold (\<lambda>ui. fold (\<lambda>vi. store_normal normal acc cnt ui vi) [0..<?n + 1])
             [0..<?n + 1] grid"
  have sn: "grid_all ?n P (store_normal normal acc cnt ui vi g)" if "grid_all ?n P g" for ui vi g
    by (rule store_normal_grid_all [where P = P and normal = normal])
       (erule assms(1), rule that)
  have g': "grid_all ?n P ?grid'"
  proof (rule fold_preserves [where P = "grid_all ?n P"])
    fix ui s
    assume "grid_all ?n P s"
    then show "grid_all ?n P
        (fold (\<lambda>vi. store_normal normal acc cnt ui vi) [0..<?n + 1] s)"
      by (rule fold_preserves [where P = "grid_all ?n P", rotated]) (rule sn)
  qed (rule assms(2))
  have "extends P st (fold (\<lambda>ui. fold (\<lambda>vi. emit_quad ?grid' ui vi) [0..<?n]) [0..<?n] st)"
  proof (rule fold_in_range [where P = "extends P st"])
    fix ui s
    assume ui: "ui < ?n" and s: "extends P st s"
    show "extends P st (fold (\<lambda>vi. emit_quad ?grid' ui vi) [0..<?n] s)"
    proof (rule fold_in_range [where P = "extends P st"])
      fix vi s'
      assume "vi < ?n" and "extends P st s'"
      then show "extends P st (emit_quad ?grid' ui vi s')"
        using g' ui by (intro extends_emit_quad)
    qed (rule s)
  qed (rule extends_refl)
  then show ?thesis
    by (simp only: shade_and_emit_def Let_def ac prod.case)
qed

lemma shade_and_emit_no_division:
  "n_divisions st = 0 \<Longrightarrow> shade_and_emit normal grid st = st"
  by (simp add: shade_and_emit_def Let_def split_beta)

lemma single_quad_emitted:
  "n_divisions st = 1 \<Longrightarrow> length (emitted st (shade_and_emit normal grid st)) = 4"
  by (simp add: shade_and_emit_def Let_def split_beta emit_quad_pipeline emitted_def)

lemma rd_sqsphere_valid:
  assumes "zmin < zmax" and "0 < radius" and "0 < thetamax" and "thetamax \<le> 360"
  shows "\<exists>grid. rd_sqsphere normal st radius north east zmin zmax thetamax =
     (0, shade_and_emit normal grid (st\<lparr>obj_normal_flag := True\<rparr>))"
  using assms by (auto simp: rd_sqsphere_def Let_def)

lemma emitted_flag: "emitted (st\<lparr>obj_normal_flag := b\<rparr>) st' = emitted st st'"
  by (simp add: emitted_def)

lemma extends_emitted:
  assumes "extends P (st\<lparr>obj_normal_flag := b\<rparr>) st'"
  shows "\<forall>p\<in>set (emitted st st'). P p"
  using assms by (auto simp: extends_def emitted_def)

subsection \<open>The sphere by the place of \<open>zmin\<close> and \<open>zmax\<close>\<close>

text \<open>
  When \<open>zmin\<close> is at most \<open>radius\<close> and \<open>zmax\<close> at least \<open>-radius\<close>, the two clamps bring both
  into \<open>[-radius, radius]\<close>, both angles are finite, and with exponents 1 every point handed
  to the renderer lies on the round sphere. (Over the reals the equation is exact; the
  \<open>float\<close> computation of the source meets it up to rounding. The normals are written at
  \<open>coord[normal .. normal + 2]\<close>, behind the three coordinates.)
\<close>

lemma round_sphere_in_range:
  assumes "fst (rd_sqsphere normal st radius 1 1 zmin zmax thetamax) = 0" and "3 \<le> normal"
    and "zmin \<le> radius" and "- radius \<le> zmax"
  shows "\<forall>p\<in>set (emitted st (snd (rd_sqsphere normal st radius 1 1 zmin zmax thetamax))).
           on_sphere radius p"
proof -
  let ?st0 = "st\<lparr>obj_normal_flag := True\<rparr>"
  let ?zmin = "if zmin < - radius then - radius else zmin"
  let ?zmax = "if zmax > radius then radius else zmax"
  from assms(1) have valid: "zmin < zmax" "0 < radius"
    by (auto simp: rd_sqsphere_def Let_def split: if_splits)
  have lo: "asin_flt (?zmin / radius) = Fin (arcsin (?zmin / radius))"
    using valid assms(3) by (intro asin_flt_in_range) auto
  have hi: "asin_flt (?zmax / radius) = Fin (arcsin (?zmax / radius))"
    using valid assms(4) by (intro asin_flt_in_range) auto
  obtain phimin phimax where
    run: "snd (rd_sqsphere normal st radius 1 1 zmin zmax thetamax) =
      shade_and_emit normal (fill_grid (n_divisions ?st0)
        (sqsphere_point (n_divisions ?st0) radius 1 1 (Fin phimin) (Fin phimax) thetamax)) ?st0"
    using assms(1) lo hi by (auto simp: rd_sqsphere_def Let_def split: if_splits)
  show ?thesis
  proof (cases "n_divisions st = 0")
    case True
    then show ?thesis
      unfolding run by (simp add: shade_and_emit_no_division emitted_def)
  next
    case False
    then have "grid_all (n_divisions ?st0) (on_sphere radius) (fill_grid (n_divisions ?st0)
        (sqsphere_point (n_divisions ?st0) radius 1 1 (Fin phimin) (Fin phimax) thetamax))"
      by (intro fill_grid_all sqsphere_point_on_sphere) simp
    then have "extends (on_sphere radius) ?st0 (snd (rd_sqsphere normal st radius 1 1 zmin zmax thetamax))"
      unfolding run by (intro shade_and_emit_extends on_sphere_normal assms(2))
    then show ?thesis by (rule extends_emitted)
  qed
qed

text \<open>
  When \<open>zmin\<close> exceeds \<open>radius\<close>, or \<open>zmax\<close> is below \<open>-radius\<close>, the parameters still pass
  the four tests (given \<open>zmin < zmax\<close>), and the clamps leave that bound where it is: \<open>zmin\<close>
  is compared with \<open>-radius\<close> only and \<open>zmax\<close> with \<open>radius\<close> only. Then \<open>asin\<close> of that
  bound over \<open>radius\<close> is NaN, the evaluator returns 0, and the three coordinates of every
  point handed to the renderer are NaN.
\<close>

lemma sphere_bound_beyond_radius:
  assumes "0 < radius" and "zmin < zmax" and "0 < thetamax" and "thetamax \<le> 360"
    and "radius < zmin \<or> zmax < - radius" and "north \<noteq> 0" and "3 \<le> normal"
  shows "fst (rd_sqsphere normal st radius north east zmin zmax thetamax) = 0 \<and>
    (\<forall>p\<in>set (emitted st (snd (rd_sqsphere normal st radius north east zmin zmax thetamax))).
        nan_point p)"
proof -
  let ?st0 = "st\<lparr>obj_normal_flag := True\<rparr>"
  let ?zmin = "if zmin < - radius then - radius else zmin"
  let ?zmax = "if zmax > radius then radius else zmax"
  let ?phimin = "asin_flt (?zmin / radius) * Fin 180 / Fin pi"
  let ?phimax = "asin_flt (?zmax / radius) * Fin 180 / Fin pi"
  have run: "rd_sqsphere normal st radius north east zmin zmax thetamax =
      (0, shade_and_emit normal (fill_grid (n_divisions ?st0)
        (sqsphere_point (n_divisions ?st0) radius north east ?phimin ?phimax thetamax)) ?st0)"
    using assms(1-4) by (simp add: rd_sqsphere_def Let_def)
  from assms(5) have nan: "?phimin = NaN \<or> ?phimax = NaN"
  proof
    assume "radius < zmin"
    with assms(1) have "?phimin = NaN" by (simp add: asin_flt_above)
    then show ?thesis ..
  next
    assume "zmax < - radius"
    with assms(1) have "?phimax = NaN" by (simp add: asin_flt_below)
    then show ?thesis ..
  qed
  have "grid_all (n_divisions ?st0) nan_point (fill_grid (n_divisions ?st0)
        (sqsphere_point (n_divisions ?st0) radius north east ?phimin ?phimax thetamax))"
    by (intro fill_grid_all sqsphere_point_NaN nan assms(6))
  then have "extends nan_point ?st0
      (snd (rd_sqsphere normal st radius north east zmin zmax thetamax))"
    unfolding run snd_conv by (intro shade_and_emit_extends nan_point_normal assms(7))
  then have "\<forall>p\<in>set (emitted st (snd (rd_sqsphere normal st radius north east zmin zmax thetamax))).
        nan_point p"
    by (rule extends_emitted)
  then show ?thesis by (simp add: run)
qed

lemma const_map:
  assumes "\<forall>x\<in>set xs. f x = c"
  shows "map f xs = replicate (length xs) c"
  using assms by (induction xs) auto

subsection \<open>C8: invalid parameters\<close>

text \<open>
  Claim C8: for every invalid parameter set (sphere: \<open>radius \<le> 0\<close>, \<open>zmin > zmax\<close>,
  \<open>zmin = zmax\<close>, \<open>thetamax\<close> outside \<open>(0, 360]\<close>; torus: \<open>radius1 \<le> 0\<close> or \<open>radius2 \<le> 0\<close>,
  \<open>phimin \<ge> phimax\<close>, \<open>thetamax\<close> outside \<open>(0, 360]\<close>) the evaluator returns \<open>-1\<close> and the
  renderer receives nothing: its sequence of received points is what it was before the call.
\<close>

theorem invalid_parameters_rejected:
  "(radius \<le> 0 \<or> zmin > zmax \<or> zmin = zmax \<or> thetamax \<le> 0 \<or> thetamax > 360 \<longrightarrow>
      fst (rd_sqsphere normal st radius north east zmin zmax thetamax) = - 1 \<and>
      pipeline (snd (rd_sqsphere normal st radius north east zmin zmax thetamax)) = pipeline st \<and>
      emitted st (snd (rd_sqsphere normal st radius north east zmin zmax thetamax)) = []) \<and>
   (radius1 \<le> 0 \<or> radius2 \<le> 0 \<or> phimin \<ge> phimax \<or> thetamax \<le> 0 \<or> thetamax > 360 \<longrightarrow>
      fst (rd_sqtorus normal st radius1 radius2 north east phimin phimax thetamax) = - 1 \<and>
      pipeline (snd (rd_sqtorus normal st radius1 radius2 north east phimin phimax thetamax))
        = pipeline st \<and>
      emitted st (snd (rd_sqtorus normal st radius1 radius2 north east phimin phimax thetamax)) = [])"
  by (auto simp: rd_sqsphere_def rd_sqtorus_def Let_def emitted_def)

text \<open>A sphere of radius 0 and a torus with \<open>phimin = phimax\<close> are rejected.\<close>

theorem invalid_parameters_rejected_witness:
  "fst (rd_sqsphere 5 example_renderer 0 1 1 (- 1) 1 360) = - 1 \<and>
   emitted example_renderer (snd (rd_sqsphere 5 example_renderer 0 1 1 (- 1) 1 360)) = [] \<and>
   fst (rd_sqtorus 5 example_renderer 2 1 1 1 90 90 360) = - 1 \<and>
   emitted example_renderer (snd (rd_sqtorus 5 example_renderer 2 1 1 1 90 90 360)) = []"
  using invalid_parameters_rejected [where radius = 0 and zmin = "- 1" and zmax = 1
      and thetamax = 360 and normal = 5 and st = example_renderer and north = 1 and east = 1
      and ?radius1.0 = 2 and ?radius2.0 = 1 and phimin = 90 and phimax = 90]
  by simp

subsection \<open>C9: exponents 1 and the round sphere\<close>

text \<open>
  Claim C9: for every valid input with \<open>north = 1\<close> and \<open>east = 1\<close>, every point the sphere
  evaluator hands to the renderer satisfies \<open>x\<^sup>2 + y\<^sup>2 + z\<^sup>2 = radius\<^sup>2\<close> up to rounding. The
  evaluator accepts every \<open>zmin < zmax\<close> with a positive radius and then clamps the bounds
  (its comment: \<open>Clamp zmin and zmax to valid range\<close>), but it clamps \<open>zmin\<close> from below only
  and \<open>zmax\<close> from above only. The call with \<open>radius = 2\<close>, \<open>zmin = 3\<close>, \<open>zmax = 5\<close>,
  \<open>thetamax = 360\<close> and one division passes the tests; \<open>zmax\<close> becomes 2, \<open>zmin\<close> stays 3 and
  \<open>asin(3/2)\<close> is NaN. The evaluator returns 0 and hands four points to the renderer; the
  coordinates of each of them are NaN, and none of them satisfies the equation of the
  sphere of radius 2.
\<close>

theorem sphere_unclamped_zmin:
  "fst (rd_sqsphere 5 example_renderer 2 1 1 3 5 360) = 0 \<and>
   map (\<lambda>p. (p 0, p 1, p 2))
     (emitted example_renderer (snd (rd_sqsphere 5 example_renderer 2 1 1 3 5 360)))
     = [(NaN, NaN, NaN), (NaN, NaN, NaN), (NaN, NaN, NaN), (NaN, NaN, NaN)] \<and>
   map (on_sphere 2)
     (emitted example_renderer (snd (rd_sqsphere 5 example_renderer 2 1 1 3 5 360)))
     = [False, False, False, False]"
proof -
  let ?ps = "emitted example_renderer (snd (rd_sqsphere 5 example_renderer 2 1 1 3 5 360))"
  have bug: "fst (rd_sqsphere 5 example_renderer 2 1 1 3 5 360) = 0" "\<forall>p\<in>set ?ps. nan_point p"
    using sphere_bound_beyond_radius [of 2 3 5 360 1 5 example_renderer 1] by simp_all
  obtain grid where run: "rd_sqsphere 5 example_renderer 2 1 1 3 5 360 =
      (0, shade_and_emit 5 grid (example_renderer\<lparr>obj_normal_flag := True\<rparr>))"
    using rd_sqsphere_valid [of 3 5 2 360 5 example_renderer 1 1] by auto
  have "length (emitted (example_renderer\<lparr>obj_normal_flag := True\<rparr>)
      (shade_and_emit 5 grid (example_renderer\<lparr>obj_normal_flag := True\<rparr>))) = 4"
    by (rule single_quad_emitted) (simp add: example_renderer_def)
  then have len: "length ?ps = 4"
    by (simp add: run emitted_flag)
  have "\<forall>p\<in>set ?ps. (p 0, p 1, p 2) = (NaN, NaN, NaN)"
    using bug(2) by (simp add: nan_point_def)
  then have coords: "map (\<lambda>p. (p 0, p 1, p 2)) ?ps = replicate (length ?ps) (NaN, NaN, NaN)"
    by (rule const_map)
  have "\<forall>p\<in>set ?ps. on_sphere 2 p = False"
    using bug(2) by (auto simp: nan_point_def on_sphere_def)
  then have off: "map (on_sphere 2) ?ps = replicate (length ?ps) False"
    by (rule const_map)
  show ?thesis
    using bug(1) coords off
    by (simp only: len) (simp add: numeral_eq_Suc)
qed

section \<open>Fractal terrain\<close>

subsection \<open>The colour cache\<close>

lemma getColor_cached:
  "heightsCalculated c \<Longrightarrow>
   getColor c t height = (color_ladder (normalize height (minHeight c) (maxHeight c)), c)"
  by (simp add: getColor_def Let_def)

lemma getColor_first:
  "getColor static_init t height =
     (color_ladder (normalize height (fst (scan_heights (ft_grid t))) (snd (scan_heights (ft_grid t)))),
      \<lparr>minHeight = fst (scan_heights (ft_grid t)), maxHeight = snd (scan_heights (ft_grid t)),
       heightsCalculated = True\<rparr>)"
  by (simp add: getColor_def Let_def static_init_def split_beta)

subsection \<open>C4: the cached extremes are those of the first grid\<close>

text \<open>
  Claim C4: the minimum and maximum height of \<open>getColor\<close> are cached in static variables that
  are computed on the first call only and are not keyed on the grid. After a first call on a
  terrain \<open>t1\<close>, a call on any other terrain \<open>t2\<close> normalises its height against the extremes
  of the grid of \<open>t1\<close> and leaves the cache as it is; the grid of \<open>t2\<close> is not read.
\<close>

theorem stale_height_cache:
  "getColor (snd (getColor static_init t1 h1)) t2 h2 =
     (color_ladder (normalize h2 (fst (scan_heights (ft_grid t1))) (snd (scan_heights (ft_grid t1)))),
      \<lparr>minHeight = fst (scan_heights (ft_grid t1)), maxHeight = snd (scan_heights (ft_grid t1)),
       heightsCalculated = True\<rparr>)"
  by (simp add: getColor_first getColor_cached)

text \<open>
  A first terrain with heights between 0 and 1, a second with heights between 0 and 10: the
  height 5 of the second terrain is coloured as snow against the stale extremes, and as grass
  against its own.
\<close>

theorem stale_height_cache_witness:
  "fst (getColor (snd (getColor static_init (example_terrain 0 1) 0)) (example_terrain 0 10) 5)
     = snowColor \<and>
   fst (getColor static_init (example_terrain 0 10) 5) = grassColor"
  using stale_height_cache [of "example_terrain 0 1" 0 "example_terrain 0 10" 5]
  by (simp add: getColor_first example_terrain_def scan_heights_def normalize_def
      deepWaterThresh_def blendWidth_def shallowWaterThresh_def sandThresh_def grassThresh_def
      mountainThresh_def)

subsection \<open>Loops with a stride preserve agreement\<close>

lemma steps_empty: "\<not> a < bound \<Longrightarrow> steps a bound step = {}"
  by (auto simp: steps_def)

lemma steps_unfold:
  assumes "a < bound"
  shows "steps a bound step = insert a (steps (a + step) bound step)"
proof (rule set_eqI)
  fix x
  show "x \<in> steps a bound step \<longleftrightarrow> x \<in> insert a (steps (a + step) bound step)"
  proof
    assume "x \<in> steps a bound step"
    then obtain k where k: "x = a + k * step" "x < bound" by (auto simp: steps_def)
    show "x \<in> insert a (steps (a + step) bound step)"
    proof (cases k)
      case 0
      then show ?thesis using k by simp
    next
      case (Suc j)
      then have "x = (a + step) + j * step" using k by simp
      then show ?thesis using k(2) by (auto simp: steps_def)
    qed
  next
    assume "x \<in> insert a (steps (a + step) bound step)"
    then consider "x = a" | k where "x = (a + step) + k * step" "x < bound"
      by (auto simp: steps_def)
    then show "x \<in> steps a bound step"
    proof cases
      case 1
      then show ?thesis using assms by (auto simp: steps_def intro: exI[of _ 0])
    next
      case 2
      then have "x = a + Suc k * step" by simp
      then show ?thesis using 2(2) unfolding steps_def by blast
    qed
  qed
qed

lemma for_step_rel:
  assumes step: "0 < step"
    and body: "\<And>x T s1 s2. x \<in> steps a bound step \<Longrightarrow> S \<subseteq> T \<Longrightarrow> R T s1 s2 \<Longrightarrow>
                 R (T \<union> W x) (body x s1) (body x s2)"
    and init: "R S s1 s2"
  shows "R (S \<union> (\<Union>x\<in>steps a bound step. W x))
           (for_step a bound step body s1) (for_step a bound step body s2)"
  using body init
proof (induction "bound - a" arbitrary: a S s1 s2 rule: less_induct)
  case less
  show ?case
  proof (cases "a < bound")
    case False
    then show ?thesis
      using less.prems(2) by (simp add: for_step.simps [of a] steps_empty)
  next
    case True
    note st = steps_unfold [OF True, of step]
    have a_in: "a \<in> steps a bound step" by (simp add: st)
    have R1: "R (S \<union> W a) (body a s1) (body a s2)"
      using less.prems(1) [OF a_in subset_refl less.prems(2)] .
    have "R ((S \<union> W a) \<union> (\<Union>x\<in>steps (a + step) bound step. W x))
           (for_step (a + step) bound step body (body a s1))
           (for_step (a + step) bound step body (body a s2))"
    proof (rule less.hyps)
      show "bound - (a + step) < bound - a" using True step by simp
    next
      fix x T t1 t2
      assume "x \<in> steps (a + step) bound step" "S \<union> W a \<subseteq> T" "R T t1 t2"
      then show "R (T \<union> W x) (body x t1) (body x t2)"
        using less.prems(1) [of x T t1 t2] by (simp add: st)
    next
      show "R (S \<union> W a) (body a s1) (body a s2)" by (rule R1)
    qed
    moreover have "(S \<union> W a) \<union> (\<Union>x\<in>steps (a + step) bound step. W x)
        = S \<union> (\<Union>x\<in>steps a bound step. W x)"
      by (auto simp: st)
    ultimately show ?thesis
      using True step by (simp add: for_step.simps [of a])
  qed
qed

lemma wf_put:
  assumes "wf_grid N grid"
  shows "wf_grid N (put x y v grid)"
proof (cases "x \<le> N")
  case True
  then have "length (grid[x := (grid ! x)[y := v]] ! a) = N + 1" if "a \<le> N" for a
    using assms that by (cases "a = x") (auto simp: wf_grid_def nth_list_update)
  then show ?thesis using assms by (simp add: wf_grid_def put_def)
next
  case False
  then have "put x y v grid = grid"
    using assms by (simp add: wf_grid_def put_def list_update_beyond)
  then show ?thesis using assms by simp
qed

lemma put_nth:
  assumes "wf_grid N grid" and "x \<le> N" and "y \<le> N"
  shows "put x y v grid ! a ! b = (if a = x \<and> b = y then v else grid ! a ! b)"
  using assms by (auto simp: wf_grid_def put_def nth_list_update)

lemma agree_put:
  assumes "agree N S (g1, r1) (g2, r2)" and "x \<le> N" and "y \<le> N"
  shows "agree N (S \<union> {(x, y)}) (put x y v g1, r) (put x y v g2, r)"
  using assms by (auto simp: agree_def wf_put put_nth)

lemma agree_mono: "agree N S s1 s2 \<Longrightarrow> T \<subseteq> S \<Longrightarrow> agree N T s1 s2"
  by (auto simp: agree_def)

lemma agree_read: "agree N S s1 s2 \<Longrightarrow> (x, y) \<in> S \<Longrightarrow> fst s1 ! x ! y = fst s2 ! x ! y"
  by (auto simp: agree_def)

lemma agree_gauss: "agree N S s1 s2 \<Longrightarrow> snd s1 = snd s2"
  by (simp add: agree_def)

lemma seed_corner_agree:
  assumes "agree N S s1 s2" and "x \<le> N" and "y \<le> N"
  shows "agree N (S \<union> {(x, y)}) (seed_corner delta x y s1) (seed_corner delta x y s2)"
proof -
  obtain g1 r1 g2 r2 where s: "s1 = (g1, r1)" "s2 = (g2, r2)" by (cases s1, cases s2) auto
  have r: "r1 = r2" using assms(1) by (simp add: agree_def s)
  show ?thesis
    using agree_put [OF assms(1) [unfolded s] assms(2,3)]
    by (simp add: seed_corner_def s r Gauss_def Let_def)
qed

lemma perturb_cell_agree:
  assumes "agree N S s1 s2" and "x \<le> N" and "y \<le> N" and "(x, y) \<in> S"
  shows "agree N (S \<union> {(x, y)}) (perturb_cell delta x y s1) (perturb_cell delta x y s2)"
proof -
  obtain g1 r1 g2 r2 where s: "s1 = (g1, r1)" "s2 = (g2, r2)" by (cases s1, cases s2) auto
  have r: "r1 = r2" using assms(1) by (simp add: agree_def s)
  have v: "g1 ! x ! y = g2 ! x ! y" using agree_read [OF assms(1,4)] by (simp add: s)
  show ?thesis
    using agree_put [OF assms(1) [unfolded s] assms(2,3)]
    by (simp add: perturb_cell_def s r v Gauss_def Let_def)
qed

lemma diamond_cell_agree:
  assumes "agree N S s1 s2" and "x \<le> N" and "y \<le> N"
    and "(x + d, y + d) \<in> S" "(x + d, y - d) \<in> S" "(x - d, y + d) \<in> S" "(x - d, y - d) \<in> S"
  shows "agree N (S \<union> {(x, y)}) (diamond_cell delta d x y s1) (diamond_cell delta d x y s2)"
proof -
  obtain g1 r1 g2 r2 where s: "s1 = (g1, r1)" "s2 = (g2, r2)" by (cases s1, cases s2) auto
  have r: "r1 = r2" using assms(1) by (simp add: agree_def s)
  note v = assms(4-7) [THEN agree_read [OF assms(1)], unfolded s fst_conv]
  show ?thesis
    using agree_put [OF assms(1) [unfolded s] assms(2,3)]
    by (simp add: diamond_cell_def s r v f4_def Gauss_def Let_def)
qed

lemma square_cell_agree:
  assumes "agree N S s1 s2" and "x \<le> N" and "y \<le> N"
    and "(x, y + d) \<in> S" "(x, y - d) \<in> S" "(x + d, y) \<in> S" "(x - d, y) \<in> S"
  shows "agree N (S \<union> {(x, y)}) (square_cell delta d x y s1) (square_cell delta d x y s2)"
proof -
  obtain g1 r1 g2 r2 where s: "s1 = (g1, r1)" "s2 = (g2, r2)" by (cases s1, cases s2) auto
  have r: "r1 = r2" using assms(1) by (simp add: agree_def s)
  note v = assms(4-7) [THEN agree_read [OF assms(1)], unfolded s fst_conv]
  show ?thesis
    using agree_put [OF assms(1) [unfolded s] assms(2,3)]
    by (simp add: square_cell_def s r v f4_def Gauss_def Let_def)
qed

lemma edge_agree:
  assumes "agree N S s1 s2" and "x \<le> N" and "y \<le> N"
    and "a = (a1, a2)" "b = (b1, b2)" "c = (c1, c2)" and "a \<in> S" "b \<in> S" "c \<in> S"
  shows "agree N (S \<union> {(x, y)})
     (case s1 of (grid, g) \<Rightarrow>
        let (v, g') = f3 delta (grid ! a1 ! a2) (grid ! b1 ! b2) (grid ! c1 ! c2) g
        in (put x y v grid, g'))
     (case s2 of (grid, g) \<Rightarrow>
        let (v, g') = f3 delta (grid ! a1 ! a2) (grid ! b1 ! b2) (grid ! c1 ! c2) g
        in (put x y v grid, g'))"
proof -
  obtain g1 r1 g2 r2 where s: "s1 = (g1, r1)" "s2 = (g2, r2)" by (cases s1, cases s2) auto
  have r: "r1 = r2" using assms(1) by (simp add: agree_def s)
  note v = assms(7-9) [unfolded assms(4-6), THEN agree_read [OF assms(1)], unfolded s fst_conv]
  show ?thesis
    using agree_put [OF assms(1) [unfolded s] assms(2,3)]
    by (simp add: s r v f3_def Gauss_def Let_def)
qed

lemma for_step2_agree:
  assumes step: "0 < step"
    and cell: "\<And>x y T s1 s2. x \<in> steps a1 b1 step \<Longrightarrow> y \<in> steps a2 b2 step \<Longrightarrow> S \<subseteq> T \<Longrightarrow>
       agree N T s1 s2 \<Longrightarrow> agree N (T \<union> {(x, y)}) (cell x y s1) (cell x y s2)"
    and init: "agree N S s1 s2"
  shows "agree N (S \<union> steps a1 b1 step \<times> steps a2 b2 step)
     (for_step a1 b1 step (\<lambda>x. for_step a2 b2 step (\<lambda>y. cell x y)) s1)
     (for_step a1 b1 step (\<lambda>x. for_step a2 b2 step (\<lambda>y. cell x y)) s2)"
proof -
  have inner: "agree N (T \<union> (\<Union>y\<in>steps a2 b2 step. {(x, y)}))
      (for_step a2 b2 step (\<lambda>y. cell x y) t1) (for_step a2 b2 step (\<lambda>y. cell x y) t2)"
    if "x \<in> steps a1 b1 step" "S \<subseteq> T" "agree N T t1 t2" for x T t1 t2
  proof (rule for_step_rel [where R = "agree N" and W = "\<lambda>y. {(x, y)}", OF step _ that(3)])
    fix y T' u1 u2
    assume "y \<in> steps a2 b2 step" "T \<subseteq> T'" "agree N T' u1 u2"
    then show "agree N (T' \<union> {(x, y)}) (cell x y u1) (cell x y u2)"
      using cell [of x y T' u1 u2] that(1,2) by auto
  qed
  have "agree N (S \<union> (\<Union>x\<in>steps a1 b1 step. \<Union>y\<in>steps a2 b2 step. {(x, y)}))
     (for_step a1 b1 step (\<lambda>x. for_step a2 b2 step (\<lambda>y. cell x y)) s1)
     (for_step a1 b1 step (\<lambda>x. for_step a2 b2 step (\<lambda>y. cell x y)) s2)"
    by (rule for_step_rel [where R = "agree N" and W = "\<lambda>x. \<Union>y\<in>steps a2 b2 step. {(x, y)}",
          OF step _ init]) (rule inner)
  moreover have "(\<Union>x\<in>steps a1 b1 step. \<Union>y\<in>steps a2 b2 step. {(x, y)})
      = steps a1 b1 step \<times> steps a2 b2 step" by auto
  ultimately show ?thesis by simp
qed


lemma mem_centres:
  assumes "0 < d"
  shows "x \<in> steps d (2 * m * d) (2 * d) \<longleftrightarrow> (\<exists>k<m. x = (2 * k + 1) * d)"
proof
  assume "x \<in> steps d (2 * m * d) (2 * d)"
  then obtain k where k: "x = d + k * (2 * d)" "x < 2 * m * d" by (auto simp: steps_def)
  have x: "x = (2 * k + 1) * d" using k(1) by (simp add: algebra_simps)
  have "(2 * k + 1) * d < (2 * m) * d" using k(2) unfolding x .
  then have "0 < d \<and> 2 * k + 1 < 2 * m" by (simp only: mult_less_cancel2)
  then have "k < m" by arith
  with x show "\<exists>k<m. x = (2 * k + 1) * d" by blast
next
  assume "\<exists>k<m. x = (2 * k + 1) * d"
  then obtain k where k: "k < m" "x = (2 * k + 1) * d" by blast
  then have "2 * k + 1 < 2 * m" by arith
  then have "(2 * k + 1) * d < (2 * m) * d" using assms by (rule mult_less_mono1)
  then have "x < 2 * m * d" unfolding k(2) .
  moreover have "x = d + k * (2 * d)" using k(2) by (simp add: algebra_simps)
  ultimately show "x \<in> steps d (2 * m * d) (2 * d)"
    unfolding steps_def by blast
qed

lemma mem_lattice:
  assumes "0 < d"
  shows "x \<in> steps 0 (m * d + 1) d \<longleftrightarrow> (\<exists>k\<le>m. x = k * d)"
proof
  assume "x \<in> steps 0 (m * d + 1) d"
  then obtain k where k: "x = k * d" "x < m * d + 1" by (auto simp: steps_def)
  from k(2) have "k * d \<le> m * d" unfolding k(1) by arith
  then have "0 < d \<longrightarrow> k \<le> m" by (simp only: mult_le_cancel2)
  then have "k \<le> m" using assms by blast
  with k show "\<exists>k\<le>m. x = k * d" by blast
next
  assume "\<exists>k\<le>m. x = k * d"
  then obtain k where k: "k \<le> m" "x = k * d" by blast
  from k(1) have "k * d \<le> m * d" by (rule mult_le_mono1)
  then have "x < m * d + 1" unfolding k(2) by arith
  moreover have "x = 0 + k * d" using k(2) by simp
  ultimately show "x \<in> steps 0 (m * d + 1) d"
    unfolding steps_def by blast
qed

lemma mem_inner:
  assumes "0 < d"
  shows "x \<in> steps (2 * d) (2 * m * d) (2 * d) \<longleftrightarrow> (\<exists>k. 0 < k \<and> k < m \<and> x = 2 * k * d)"
proof
  assume "x \<in> steps (2 * d) (2 * m * d) (2 * d)"
  then obtain k where k: "x = 2 * d + k * (2 * d)" "x < 2 * m * d" by (auto simp: steps_def)
  have x: "x = (2 * (k + 1)) * d" using k(1) by (simp add: algebra_simps)
  have "(2 * (k + 1)) * d < (2 * m) * d" using k(2) unfolding x .
  then have "0 < d \<and> 2 * (k + 1) < 2 * m" by (simp only: mult_less_cancel2)
  then have "k + 1 < m" by arith
  with x show "\<exists>k. 0 < k \<and> k < m \<and> x = 2 * k * d" by (intro exI[of _ "k + 1"]) simp
next
  assume "\<exists>k. 0 < k \<and> k < m \<and> x = 2 * k * d"
  then obtain k where k: "0 < k" "k < m" "x = (2 * k) * d" by auto
  then obtain j where j: "k = Suc j" by (cases k) auto
  have "2 * k < 2 * m" using k(2) by arith
  then have "(2 * k) * d < (2 * m) * d" using assms by (rule mult_less_mono1)
  then have "x < 2 * m * d" unfolding k(3) .
  moreover have "x = 2 * d + j * (2 * d)" using k(3) j by (simp add: algebra_simps)
  ultimately show "x \<in> steps (2 * d) (2 * m * d) (2 * d)"
    unfolding steps_def by blast
qed

lemma mem_even:
  assumes "0 < d"
  shows "x \<in> steps 0 (2 * m * d + 1) (2 * d) \<longleftrightarrow> (\<exists>k\<le>m. x = 2 * k * d)"
proof -
  have "x \<in> steps 0 (m * (2 * d) + 1) (2 * d) \<longleftrightarrow> (\<exists>k\<le>m. x = k * (2 * d))"
    using assms by (intro mem_lattice) simp
  moreover have "m * (2 * d) = 2 * m * d" by simp
  moreover have "k * (2 * d) = 2 * k * d" for k by simp
  ultimately show ?thesis by (simp only:)
qed

subsection \<open>The index sets of a stage\<close>

lemma centre_neighbours:
  assumes "0 < d" and "x \<in> centres d (2 * m * d)"
  shows "x + d \<in> evens d (2 * m * d)" "x - d \<in> evens d (2 * m * d)" "x \<le> 2 * m * d"
proof -
  from assms(2) obtain k where k: "k < m" "x = (2 * k + 1) * d"
    unfolding centres_def mem_centres [OF assms(1)] by blast
  have "x + d = 2 * (k + 1) * d" using k(2) by (simp add: algebra_simps)
  moreover have "k + 1 \<le> m" using k(1) by simp
  ultimately show "x + d \<in> evens d (2 * m * d)"
    unfolding evens_def mem_even [OF assms(1)] by blast
  have "x - d = 2 * k * d" using k(2) by (simp add: algebra_simps)
  moreover have "k \<le> m" using k(1) by simp
  ultimately show "x - d \<in> evens d (2 * m * d)"
    unfolding evens_def mem_even [OF assms(1)] by blast
  have "2 * k + 1 \<le> 2 * m" using k(1) by arith
  then have "(2 * k + 1) * d \<le> (2 * m) * d" by (rule mult_le_mono1)
  then show "x \<le> 2 * m * d" unfolding k(2) .
qed

lemma inner_neighbours:
  assumes "0 < d" and "y \<in> inner d (2 * m * d)"
  shows "y + d \<in> centres d (2 * m * d)" "y - d \<in> centres d (2 * m * d)"
    "y \<in> evens d (2 * m * d)" "y \<le> 2 * m * d"
proof -
  from assms(2) obtain k where k: "0 < k" "k < m" "y = 2 * k * d"
    unfolding inner_def mem_inner [OF assms(1)] by blast
  have "y + d = (2 * k + 1) * d" using k(3) by (simp add: algebra_simps)
  then show "y + d \<in> centres d (2 * m * d)"
    unfolding centres_def mem_centres [OF assms(1)] using k(2) by blast
  obtain j where j: "k = Suc j" using k(1) by (cases k) auto
  have "y - d = (2 * j + 1) * d" using k(3) j by (simp add: algebra_simps)
  moreover have "j < m" using k(2) j by simp
  ultimately show "y - d \<in> centres d (2 * m * d)"
    unfolding centres_def mem_centres [OF assms(1)] by blast
  have "k \<le> m" using k(2) by simp
  then show "y \<in> evens d (2 * m * d)"
    unfolding evens_def mem_even [OF assms(1)] using k(3) by blast
  have "2 * k \<le> 2 * m" using k(2) by arith
  then have "(2 * k) * d \<le> (2 * m) * d" by (rule mult_le_mono1)
  then show "y \<le> 2 * m * d" unfolding k(3) .
qed

lemma even_bound:
  assumes "0 < d" and "x \<in> evens d (2 * m * d)"
  shows "x \<le> 2 * m * d"
proof -
  from assms(2) obtain k where k: "k \<le> m" "x = (2 * k) * d"
    unfolding evens_def mem_even [OF assms(1)] by blast
  have "2 * k \<le> 2 * m" using k(1) by arith
  then have "(2 * k) * d \<le> (2 * m) * d" by (rule mult_le_mono1)
  then show ?thesis unfolding k(2) .
qed

lemma even_cases:
  assumes "0 < d" and "x \<in> evens d (2 * m * d)"
  shows "x = 0 \<or> x = 2 * m * d \<or> x \<in> inner d (2 * m * d)"
proof -
  from assms(2) obtain k where k: "k \<le> m" "x = 2 * k * d"
    unfolding evens_def mem_even [OF assms(1)] by blast
  consider "k = 0" | "k = m" | "0 < k" "k < m" using k(1) by arith
  then show ?thesis
  proof cases
    case 1
    then show ?thesis using k(2) by simp
  next
    case 2
    then show ?thesis using k(2) by simp
  next
    case 3
    then have "x \<in> inner d (2 * m * d)"
      unfolding inner_def mem_inner [OF assms(1)] using k(2) by blast
    then show ?thesis by simp
  qed
qed

lemma special_members:
  assumes "0 < d" and "0 < m"
  shows "d \<in> centres d (2 * m * d)" "2 * m * d - d \<in> centres d (2 * m * d)"
    "0 \<in> evens d (2 * m * d)" "2 * m * d \<in> evens d (2 * m * d)"
proof -
  have "d = (2 * 0 + 1) * d" by simp
  then show "d \<in> centres d (2 * m * d)"
    unfolding centres_def mem_centres [OF assms(1)] using assms(2) by blast
  obtain j where j: "m = Suc j" using assms(2) by (cases m) auto
  have "2 * m * d - d = (2 * j + 1) * d" using j by (simp add: algebra_simps)
  moreover have "j < m" using j by simp
  ultimately show "2 * m * d - d \<in> centres d (2 * m * d)"
    unfolding centres_def mem_centres [OF assms(1)] by blast
  have "0 = 2 * 0 * d" by simp
  then show "0 \<in> evens d (2 * m * d)"
    unfolding evens_def mem_even [OF assms(1)] by blast
  show "2 * m * d \<in> evens d (2 * m * d)"
    unfolding evens_def mem_even [OF assms(1)] by blast
qed

lemma lattice_cases:
  assumes "0 < d" and "x \<in> lattice d (2 * m * d)"
  shows "x \<in> evens d (2 * m * d) \<or> x \<in> centres d (2 * m * d)"
proof -
  have "x \<in> steps 0 ((2 * m) * d + 1) d" using assms(2) by (simp add: lattice_def)
  then obtain k where k: "k \<le> 2 * m" "x = k * d"
    unfolding mem_lattice [OF assms(1)] by blast
  show ?thesis
  proof (cases "even k")
    case True
    then obtain j where j: "k = 2 * j" by (auto elim: evenE)
    then have "j \<le> m" "x = 2 * j * d" using k by simp_all
    then show ?thesis unfolding evens_def mem_even [OF assms(1)] by blast
  next
    case False
    then obtain j where j: "k = 2 * j + 1" by (auto elim: oddE)
    then have "j < m" "x = (2 * j + 1) * d" using k by simp_all
    then show ?thesis unfolding centres_def mem_centres [OF assms(1)] by blast
  qed
qed

subsection \<open>A stage extends the agreement from the coarse lattice to the fine one\<close>

lemma edges_agree:
  assumes d: "0 < d" and m: "0 < m" and N: "N = 2 * m * d"
    and x: "x \<in> centres d N"
    and known: "evens d N \<times> evens d N \<union> centres d N \<times> centres d N \<subseteq> T"
    and ag: "agree N T s1 s2"
  shows "agree N (T \<union> {(x, 0), (x, N), (0, x), (N, x)})
     (right_edge delta N d x (left_edge delta d x (top_edge delta N d x (bottom_edge delta d x s1))))
     (right_edge delta N d x (left_edge delta d x (top_edge delta N d x (bottom_edge delta d x s2))))"
proof -
  note cn = centre_neighbours [OF d x [unfolded N], folded N]
  note sp = special_members [OF d m, folded N]
  have r: "(x + d, 0) \<in> T" "(x - d, 0) \<in> T" "(x, d) \<in> T"
      "(x + d, N) \<in> T" "(x - d, N) \<in> T" "(x, N - d) \<in> T"
      "(0, x + d) \<in> T" "(0, x - d) \<in> T" "(d, x) \<in> T"
      "(N, x + d) \<in> T" "(N, x - d) \<in> T" "(N - d, x) \<in> T"
    using known cn sp x by auto
  have b: "agree N (T \<union> {(x, 0)}) (bottom_edge delta d x s1) (bottom_edge delta d x s2)"
    unfolding bottom_edge_def
    by (rule edge_agree [OF ag cn(3) _ refl refl refl r(1,2,3)]) simp
  have t: "agree N (T \<union> {(x, 0)} \<union> {(x, N)})
      (top_edge delta N d x (bottom_edge delta d x s1))
      (top_edge delta N d x (bottom_edge delta d x s2))"
    unfolding top_edge_def
    by (rule edge_agree [OF b cn(3) _ refl refl refl]) (use r in auto)
  have l: "agree N (T \<union> {(x, 0)} \<union> {(x, N)} \<union> {(0, x)})
      (left_edge delta d x (top_edge delta N d x (bottom_edge delta d x s1)))
      (left_edge delta d x (top_edge delta N d x (bottom_edge delta d x s2)))"
    unfolding left_edge_def
    by (rule edge_agree [OF t _ cn(3) refl refl refl]) (use r in auto)
  have "agree N (T \<union> {(x, 0)} \<union> {(x, N)} \<union> {(0, x)} \<union> {(N, x)})
      (right_edge delta N d x (left_edge delta d x (top_edge delta N d x (bottom_edge delta d x s1))))
      (right_edge delta N d x (left_edge delta d x (top_edge delta N d x (bottom_edge delta d x s2))))"
    unfolding right_edge_def
    by (rule edge_agree [OF l _ cn(3) refl refl refl]) (use r in auto)
  moreover have "T \<union> {(x, 0)} \<union> {(x, N)} \<union> {(0, x)} \<union> {(N, x)}
      = T \<union> {(x, 0), (x, N), (0, x), (N, x)}" by auto
  ultimately show ?thesis by simp
qed

lemma stage_agree:
  assumes d: "0 < d" and m: "0 < m" and N: "N = 2 * m * d"
    and ag: "agree N (evens d N \<times> evens d N) s1 s2"
  shows "agree N (lattice d N \<times> lattice d N)
     (snd (stage H N (2 * d) d delta s1)) (snd (stage H N (2 * d) d delta s2))"
proof -
  let ?E = "evens d N" and ?C = "centres d N" and ?I = "inner d N"
  let ?D = "2 * d"
  let ?d1 = "delta * (0.5 powr (0.5 * H))"
  let ?d2 = "?d1 * (0.5 powr (0.5 * H))"
  have D: "0 < ?D" using d by simp
  note cn = centre_neighbours [OF d, of _ m, folded N]
  note inn = inner_neighbours [OF d, of _ m, folded N]
  note eb = even_bound [OF d, of _ m, folded N]
  \<comment> \<open>the centres of the squares\<close>
  let ?p1 = "\<lambda>s. for_step d N ?D (\<lambda>x. for_step d N ?D (\<lambda>y. diamond_cell ?d1 d x y)) s"
  have a1: "agree N (?E \<times> ?E \<union> ?C \<times> ?C) (?p1 s1) (?p1 s2)"
  proof (rule for_step2_agree [OF D _ ag, of d N d N, folded centres_def])
    fix x y T t1 t2
    assume "x \<in> ?C" "y \<in> ?C" "?E \<times> ?E \<subseteq> T" "agree N T t1 t2"
    then show "agree N (T \<union> {(x, y)}) (diamond_cell ?d1 d x y t1) (diamond_cell ?d1 d x y t2)"
      using cn [of x] cn [of y] by (intro diamond_cell_agree) auto
  qed
  \<comment> \<open>the corners are perturbed\<close>
  let ?p2 = "\<lambda>s. for_step 0 (N + 1) ?D (\<lambda>x. for_step 0 (N + 1) ?D (\<lambda>y. perturb_cell ?d1 x y)) s"
  have a2: "agree N (?E \<times> ?E \<union> ?C \<times> ?C \<union> ?E \<times> ?E) (?p2 (?p1 s1)) (?p2 (?p1 s2))"
  proof (rule for_step2_agree [OF D _ a1, of 0 "N + 1" 0 "N + 1", folded evens_def])
    fix x y T t1 t2
    assume "x \<in> ?E" "y \<in> ?E" "?E \<times> ?E \<union> ?C \<times> ?C \<subseteq> T" "agree N T t1 t2"
    then show "agree N (T \<union> {(x, y)}) (perturb_cell ?d1 x y t1) (perturb_cell ?d1 x y t2)"
      using eb [of x] eb [of y] by (intro perturb_cell_agree) auto
  qed
  \<comment> \<open>the midpoints of the boundary edges\<close>
  let ?edges = "\<lambda>x s. right_edge ?d2 N d x (left_edge ?d2 d x
                  (top_edge ?d2 N d x (bottom_edge ?d2 d x s)))"
  let ?p3 = "\<lambda>s. for_step d N ?D ?edges s"
  let ?B = "\<Union>x\<in>?C. {(x, 0), (x, N), (0, x), (N, x)}"
  let ?S2 = "?E \<times> ?E \<union> ?C \<times> ?C \<union> ?E \<times> ?E"
  have a3: "agree N (?S2 \<union> ?B) (?p3 (?p2 (?p1 s1))) (?p3 (?p2 (?p1 s2)))"
  proof (rule for_step_rel [where R = "agree N" and W = "\<lambda>x. {(x, 0), (x, N), (0, x), (N, x)}",
        OF D _ a2, of d N, folded centres_def])
    fix x T t1 t2
    assume "x \<in> ?C" "?S2 \<subseteq> T" "agree N T t1 t2"
    then show "agree N (T \<union> {(x, 0), (x, N), (0, x), (N, x)}) (?edges x t1) (?edges x t2)"
      by (intro edges_agree [OF d m N]) auto
  qed
  \<comment> \<open>the midpoints of the interior edges, both orientations\<close>
  let ?p4 = "\<lambda>s. for_step d N ?D (\<lambda>x. for_step ?D N ?D (\<lambda>y. square_cell ?d2 d x y)) s"
  let ?S3 = "?S2 \<union> ?B"
  have a4: "agree N (?S3 \<union> ?C \<times> ?I) (?p4 (?p3 (?p2 (?p1 s1)))) (?p4 (?p3 (?p2 (?p1 s2))))"
  proof (rule for_step2_agree [OF D _ a3, of d N ?D N, folded centres_def inner_def])
    fix x y T t1 t2
    assume "x \<in> ?C" "y \<in> ?I" "?S3 \<subseteq> T" "agree N T t1 t2"
    then show "agree N (T \<union> {(x, y)}) (square_cell ?d2 d x y t1) (square_cell ?d2 d x y t2)"
      using cn [of x] inn [of y] by (intro square_cell_agree) auto
  qed
  let ?p5 = "\<lambda>s. for_step ?D N ?D (\<lambda>x. for_step d N ?D (\<lambda>y. square_cell ?d2 d x y)) s"
  let ?S4 = "?S3 \<union> ?C \<times> ?I"
  have a5: "agree N (?S4 \<union> ?I \<times> ?C)
      (?p5 (?p4 (?p3 (?p2 (?p1 s1))))) (?p5 (?p4 (?p3 (?p2 (?p1 s2)))))"
  proof (rule for_step2_agree [OF D _ a4, of ?D N d N, folded centres_def inner_def])
    fix x y T t1 t2
    assume "x \<in> ?I" "y \<in> ?C" "?S4 \<subseteq> T" "agree N T t1 t2"
    then show "agree N (T \<union> {(x, y)}) (square_cell ?d2 d x y t1) (square_cell ?d2 d x y t2)"
      using cn [of y] inn [of x] by (intro square_cell_agree) auto
  qed
  \<comment> \<open>the two final perturbations\<close>
  let ?p6 = "\<lambda>s. for_step 0 (N + 1) ?D (\<lambda>x. for_step 0 (N + 1) ?D (\<lambda>y. perturb_cell ?d2 x y)) s"
  let ?S5 = "?S4 \<union> ?I \<times> ?C"
  have a6: "agree N (?S5 \<union> ?E \<times> ?E)
      (?p6 (?p5 (?p4 (?p3 (?p2 (?p1 s1)))))) (?p6 (?p5 (?p4 (?p3 (?p2 (?p1 s2))))))"
  proof (rule for_step2_agree [OF D _ a5, of 0 "N + 1" 0 "N + 1", folded evens_def])
    fix x y T t1 t2
    assume "x \<in> ?E" "y \<in> ?E" "?S5 \<subseteq> T" "agree N T t1 t2"
    then show "agree N (T \<union> {(x, y)}) (perturb_cell ?d2 x y t1) (perturb_cell ?d2 x y t2)"
      using eb [of x] eb [of y] by (intro perturb_cell_agree) auto
  qed
  let ?p7 = "\<lambda>s. for_step d N ?D (\<lambda>x. for_step d N ?D (\<lambda>y. perturb_cell ?d2 x y)) s"
  let ?S6 = "?S5 \<union> ?E \<times> ?E"
  have a7: "agree N (?S6 \<union> ?C \<times> ?C)
      (?p7 (?p6 (?p5 (?p4 (?p3 (?p2 (?p1 s1))))))) (?p7 (?p6 (?p5 (?p4 (?p3 (?p2 (?p1 s2)))))))"
  proof (rule for_step2_agree [OF D _ a6, of d N d N, folded centres_def])
    fix x y T t1 t2
    assume "x \<in> ?C" "y \<in> ?C" "?S6 \<subseteq> T" "agree N T t1 t2"
    then show "agree N (T \<union> {(x, y)}) (perturb_cell ?d2 x y t1) (perturb_cell ?d2 x y t2)"
      using cn [of x] cn [of y] by (intro perturb_cell_agree) auto
  qed
  have cover: "lattice d N \<times> lattice d N \<subseteq> ?S6 \<union> ?C \<times> ?C"
  proof
    fix p
    assume "p \<in> lattice d N \<times> lattice d N"
    then obtain x y where p: "p = (x, y)" "x \<in> lattice d N" "y \<in> lattice d N" by auto
    note lx = lattice_cases [OF d p(2) [unfolded N], folded N]
    note ly = lattice_cases [OF d p(3) [unfolded N], folded N]
    note ex = even_cases [OF d, of x m, folded N]
    note ey = even_cases [OF d, of y m, folded N]
    show "p \<in> ?S6 \<union> ?C \<times> ?C"
      using lx ly ex ey unfolding p(1) by blast
  qed
  have "snd (stage H N ?D d delta s) = ?p7 (?p6 (?p5 (?p4 (?p3 (?p2 (?p1 s))))))" for s
    by (simp add: stage_def Let_def)
  then show ?thesis
    using agree_mono [OF a7 cover] by simp
qed

lemma stage_delta: "fst (stage H N D d delta s) = delta * (0.5 powr (0.5 * H)) * (0.5 powr (0.5 * H))"
  by (simp add: stage_def Let_def)

text \<open>
  The strides of \<open>generateTerrain\<close>: the stage loop starts with \<open>D = 2 ^ n\<close> and \<open>n\<close> stages to
  run, and a stage that runs with \<open>k + 1\<close> stages to go has the stride \<open>2 * 2 ^ k\<close> and the
  half stride \<open>2 ^ k\<close>, both positive, and leaves \<open>2 ^ k\<close> for the \<open>k\<close> stages that follow.
\<close>

lemma stages_strides:
  "stages (Suc k) H N (2 ^ Suc k) (2 ^ Suc k div 2) delta s =
     (case stage H N (2 * 2 ^ k) (2 ^ k) delta s of
        (delta', s') \<Rightarrow> stages k H N (2 ^ k) (2 ^ k div 2) delta' s')"
  by simp

lemma steps_unit: "steps 0 (Suc N) (Suc 0) = {..N}"
  by (auto simp: steps_def)

lemma stages_agree:
  assumes "0 < m" and "N = m * 2 ^ k"
    and "agree N (steps 0 (N + 1) (2 ^ k) \<times> steps 0 (N + 1) (2 ^ k)) s1 s2"
  shows "agree N ({..N} \<times> {..N})
     (stages k H N (2 ^ k) (2 ^ k div 2) delta s1) (stages k H N (2 ^ k) (2 ^ k div 2) delta s2)"
  using assms
proof (induction k arbitrary: m delta s1 s2)
  case 0
  then show ?case by (simp add: steps_unit)
next
  case (Suc j)
  let ?d = "2 ^ j :: nat"
  have d: "0 < ?d" by simp
  have N: "N = 2 * m * ?d" using Suc.prems(2) by simp
  have ag: "agree N (evens ?d N \<times> evens ?d N) s1 s2"
    using Suc.prems(3) by (simp add: evens_def)
  note st = stage_agree [OF d Suc.prems(1) N ag, of H delta, unfolded lattice_def]
  obtain delta' where fst1: "fst (stage H N (2 * ?d) ?d delta s1) = delta'"
    and fst2: "fst (stage H N (2 * ?d) ?d delta s2) = delta'"
    by (simp add: stage_delta)
  have "agree N ({..N} \<times> {..N})
     (stages j H N (2 ^ j) (2 ^ j div 2) delta' (snd (stage H N (2 * ?d) ?d delta s1)))
     (stages j H N (2 ^ j) (2 ^ j div 2) delta' (snd (stage H N (2 * ?d) ?d delta s2)))"
    by (rule Suc.IH [of "2 * m"]) (use Suc.prems(1) N st in simp_all)
  then show ?case
    using fst1 fst2 by (simp add: split_beta)
qed

lemma agree_all_equal:
  assumes "agree N ({..N} \<times> {..N}) s1 s2"
  shows "s1 = s2"
proof -
  have len: "length (fst s1) = N + 1" "length (fst s2) = N + 1"
    and rows: "\<And>x. x \<le> N \<Longrightarrow> length (fst s1 ! x) = N + 1 \<and> length (fst s2 ! x) = N + 1"
    and cells: "\<And>x y. x \<le> N \<Longrightarrow> y \<le> N \<Longrightarrow> fst s1 ! x ! y = fst s2 ! x ! y"
    using assms by (auto simp: agree_def wf_grid_def)
  have "fst s1 ! x = fst s2 ! x" if "x < N + 1" for x
    using that rows [of x] cells [of x] by (intro nth_equalityI) auto
  then have "fst s1 = fst s2" using len by (intro nth_equalityI) auto
  moreover have "snd s1 = snd s2" using assms by (simp add: agree_def)
  ultimately show ?thesis by (simp add: prod_eq_iff)
qed

lemma corners_agree:
  assumes "wf_grid N g1" and "wf_grid N g2"
  shows "agree N ({0, N} \<times> {0, N})
      (seed_corner delta N N (seed_corner delta N 0
         (seed_corner delta 0 N (seed_corner delta 0 0 (g1, r)))))
      (seed_corner delta N N (seed_corner delta N 0
         (seed_corner delta 0 N (seed_corner delta 0 0 (g2, r)))))"
proof -
  have a0: "agree N {} (g1, r) (g2, r)" using assms by (simp add: agree_def)
  have "agree N ({} \<union> {(0, 0)} \<union> {(0, N)} \<union> {(N, 0)} \<union> {(N, N)})
      (seed_corner delta N N (seed_corner delta N 0
         (seed_corner delta 0 N (seed_corner delta 0 0 (g1, r)))))
      (seed_corner delta N N (seed_corner delta N 0
         (seed_corner delta 0 N (seed_corner delta 0 0 (g2, r)))))"
    by (intro seed_corner_agree a0) simp_all
  then show ?thesis by (rule agree_mono) auto
qed

lemma steps_whole: "0 < N \<Longrightarrow> steps 0 (N + 1) N = {0, N}"
proof -
  assume N: "0 < N"
  have "x \<in> steps 0 (1 * N + 1) N \<longleftrightarrow> (\<exists>k\<le>1. x = k * N)" for x
    by (rule mem_lattice [OF N])
  moreover have "(\<exists>k\<le>1. x = k * N) \<longleftrightarrow> x = 0 \<or> x = N" for x
  proof
    assume "\<exists>k\<le>1. x = k * N"
    then obtain k where "k \<le> 1" "x = k * N" by blast
    then show "x = 0 \<or> x = N" by (cases k) auto
  next
    assume "x = 0 \<or> x = N"
    then show "\<exists>k\<le>1. x = k * N"
      by (auto intro: exI [of _ 0] exI [of _ 1])
  qed
  ultimately show ?thesis by auto
qed

lemma terrain_loops_agree:
  assumes "wf_grid (2 ^ n) g1" and "wf_grid (2 ^ n) g2"
  shows "stages n H (2 ^ n) (2 ^ n) (2 ^ n div 2) delta
       (seed_corner delta (2 ^ n) (2 ^ n) (seed_corner delta (2 ^ n) 0
         (seed_corner delta 0 (2 ^ n) (seed_corner delta 0 0 (g1, r)))))
     = stages n H (2 ^ n) (2 ^ n) (2 ^ n div 2) delta
       (seed_corner delta (2 ^ n) (2 ^ n) (seed_corner delta (2 ^ n) 0
         (seed_corner delta 0 (2 ^ n) (seed_corner delta 0 0 (g2, r)))))"
    and "wf_grid (2 ^ n) (fst (stages n H (2 ^ n) (2 ^ n) (2 ^ n div 2) delta
       (seed_corner delta (2 ^ n) (2 ^ n) (seed_corner delta (2 ^ n) 0
         (seed_corner delta 0 (2 ^ n) (seed_corner delta 0 0 (g1, r)))))))"
proof -
  let ?N = "2 ^ n :: nat"
  let ?c = "\<lambda>g. seed_corner delta ?N ?N (seed_corner delta ?N 0
         (seed_corner delta 0 ?N (seed_corner delta 0 0 (g, r))))"
  have sw: "steps 0 (?N + 1) (2 ^ n) = {0, ?N}" by (rule steps_whole) simp
  have "agree ?N ({0, ?N} \<times> {0, ?N}) (?c g1) (?c g2)"
    by (rule corners_agree [OF assms])
  then have "agree ?N (steps 0 (?N + 1) (2 ^ n) \<times> steps 0 (?N + 1) (2 ^ n)) (?c g1) (?c g2)"
    unfolding sw .
  then have ag: "agree ?N ({..?N} \<times> {..?N})
      (stages n H ?N (2 ^ n) (2 ^ n div 2) delta (?c g1))
      (stages n H ?N (2 ^ n) (2 ^ n div 2) delta (?c g2))"
    by (intro stages_agree [of 1]) simp_all
  then show "stages n H ?N ?N (?N div 2) delta (?c g1) = stages n H ?N ?N (?N div 2) delta (?c g2)"
    by (rule agree_all_equal)
  show "wf_grid ?N (fst (stages n H ?N ?N (?N div 2) delta (?c g1)))"
    using ag by (simp add: agree_def)
qed

lemma generateTerrain_fields:
  "ft_n (generateTerrain ns t) = ft_n t" "ft_H (generateTerrain ns t) = ft_H t"
  "ft_seed (generateTerrain ns t) = ft_seed t" "ft_sigma (generateTerrain ns t) = ft_sigma t"
  by (simp_all add: generateTerrain_def InitGauss_def Let_def split_beta)

lemma wf_replicate: "wf_grid N (replicate (N + 1) (replicate (N + 1) 0))"
proof -
  have "replicate (N + 1) (replicate (N + 1) (0::real)) ! x = replicate (N + 1) 0"
    if "x \<le> N" for x
    using that by (intro nth_replicate) simp
  then show ?thesis
    unfolding wf_grid_def by (simp only: length_replicate) simp
qed

subsection \<open>C5: the generated grid is a function of the four parameters\<close>

text \<open>
  Claim C5: the terrain generator is deterministic given \<open>(n, D, seed, sigma)\<close>. In the model
  the state that a second invocation could depend on is explicit: the grid and the generator
  of the object before the call. \<open>generateTerrain\<close> re-seeds the generator, and every cell of
  the grid is assigned before it is read, so two objects that agree on \<open>n\<close>, \<open>H = 3 - D\<close>,
  \<open>seed\<close> and \<open>sigma\<close> (and whose grids have the size \<open>2 ^ n + 1\<close> that the constructor
  allocates) end with identical grids of that size, whatever their grids and generators held
  before.
\<close>

theorem terrain_deterministic:
  assumes "ft_n t1 = ft_n t2" and "ft_H t1 = ft_H t2" and "ft_seed t1 = ft_seed t2"
    and "ft_sigma t1 = ft_sigma t2"
    and "wf_grid (2 ^ ft_n t1) (ft_grid t1)" and "wf_grid (2 ^ ft_n t2) (ft_grid t2)"
  shows "ft_grid (generateTerrain normal_stream t1) = ft_grid (generateTerrain normal_stream t2) \<and>
    wf_grid (2 ^ ft_n t1) (ft_grid (generateTerrain normal_stream t1))"
  using terrain_loops_agree [OF assms(5) assms(6) [folded assms(1)],
      of "ft_H t1" "ft_sigma t1" "normal_stream (ft_seed t1)"]
  by (simp add: generateTerrain_def InitGauss_def Let_def split_beta assms(1-4) [symmetric])

text \<open>
  Scenario A: the terrain constructed with \<open>n = 2\<close>, \<open>D = 2.5\<close>, \<open>seed = 42\<close>, \<open>sigma = 1\<close> has
  a 5 by 5 grid, and running \<open>generateTerrain\<close> again on the generated object reproduces the
  same 25 heights.
\<close>

theorem terrain_deterministic_witness:
  "wf_grid 4 (ft_grid (FractalTerrain_new example_stream 2 2.5 42 1)) \<and>
   length (ft_grid (FractalTerrain_new example_stream 2 2.5 42 1)) = 5 \<and>
   ft_grid (generateTerrain example_stream (FractalTerrain_new example_stream 2 2.5 42 1))
     = ft_grid (FractalTerrain_new example_stream 2 2.5 42 1)"
proof -
  let ?t0 = "\<lparr>ft_n = 2, ft_D = 2.5, ft_H = 3 - 2.5, ft_seed = 42,
            ft_sigma = 1, ft_grid = replicate (2 ^ 2 + 1) (replicate (2 ^ 2 + 1) 0),
            ft_gauss = example_stream 5489\<rparr>"
  have new: "FractalTerrain_new example_stream 2 2.5 42 1 = generateTerrain example_stream ?t0"
    by (simp add: FractalTerrain_new_def Let_def)
  have wf0: "wf_grid (2 ^ ft_n ?t0) (ft_grid ?t0)"
    using wf_replicate [of 4] by simp
  from terrain_deterministic [OF refl refl refl refl wf0 wf0, of example_stream]
  have wf1: "wf_grid 4 (ft_grid (generateTerrain example_stream ?t0))" by simp
  then have wf1': "wf_grid (2 ^ ft_n (generateTerrain example_stream ?t0))
      (ft_grid (generateTerrain example_stream ?t0))"
    by (simp add: generateTerrain_fields)
  from terrain_deterministic [OF _ _ _ _ wf1' wf0, of example_stream]
  have "ft_grid (generateTerrain example_stream (generateTerrain example_stream ?t0))
      = ft_grid (generateTerrain example_stream ?t0)"
    by (simp add: generateTerrain_fields)
  with wf1 show ?thesis
    unfolding new by (simp add: wf_grid_def)
qed

section \<open>C3: which generators can be seeded\<close>

lemma track_loop_below:
  "k < i \<Longrightarrow> length ps = POINTS_PER_TRACK \<Longrightarrow> fst (track_loop i pos dir ps g) ! k = ps ! k"
proof (induction i pos dir ps g rule: track_loop.induct)
  case (1 i pos dir points g)
  show ?case
  proof (cases "i < POINTS_PER_TRACK")
    case False
    then show ?thesis by (subst track_loop.simps) simp
  next
    case True
    show ?thesis
    proof (cases "tp_active (points ! (i - 1))")
      case False
      with True 1(1) [OF True False] 1(3,4) show ?thesis
        by (subst track_loop.simps) simp
    next
      case act: True
      let ?r = "track_step pos dir g"
      let ?ps = "points[i := (points ! i)
                 \<lparr>tp_position := ts_pos ?r, tp_color := ts_color ?r, tp_active := True\<rparr>]"
      show ?thesis
      proof (cases "ts_absorbed ?r")
        case True
        with act \<open>i < POINTS_PER_TRACK\<close> 1(3,4) show ?thesis
          by (subst track_loop.simps) (simp add: Let_def deactivate_from_nth)
      next
        case False
        with act True 1(2) [OF True _ refl refl False] 1(3,4) show ?thesis
          by (subst track_loop.simps) (simp add: Let_def)
      qed
    qed
  qed
qed

lemma generate_first_position:
  assumes "length ps = POINTS_PER_TRACK"
  shows "tp_position (fst (generate ps g) ! 0) =
    (let costheta = 2 * shd (stl g) - 1;
         sintheta = sqrt (1 - costheta * costheta);
         phi = shd g * 2 * pi;
         r = SOURCE_RADIUS * (shd (stl (stl g)) powr (1 / 3))
     in Vec (r * sintheta * cos phi, r * sintheta * sin phi, r * costheta))"
  using assms
  by (simp add: generate_def Let_def split_beta uniform_dist_def track_loop_below
      POINTS_PER_TRACK_def)

lemma powr_half_pos: "(0::real) < (1 / 2) powr (1 / 3)"
  by simp

text \<open>
  Claim C3 says that each of the three generators can be seeded by its caller, so that two
  invocations with the same seed and parameters produce identical output. The static and
  the dynamic program construct their engine as \<open>std::mt19937 gen(rd())\<close> from a
  \<open>std::random_device\<close> and take no seed; what their engine returns is not under the caller's
  control. Two runs with the same arguments and different engine streams differ already in
  the first point of the first track and in the position of the first neutron (C3, as stated,
  fails for these two generators).
\<close>

theorem unseeded_transport:
  "tp_position (fst (generate NeutronTrack_new (sconst 0)) ! 0) = Vec (0, 0, 0) \<and>
   tp_position (fst (generate NeutronTrack_new (sconst (1 / 2))) ! 0)
     = Vec (- (1 / 2 * (1 / 2) powr (1 / 3)), 0, 0) \<and>
   Vec (0, 0, 0) \<noteq> Vec (- (1 / 2 * (1 / 2) powr (1 / 3)), 0, 0) \<and>
   position (neutrons (NeutronSimulation_new 3 (sconst 0)) ! 0) = (0, 0, 0) \<and>
   position (neutrons (NeutronSimulation_new 3 (sconst (1 / 2))) ! 0)
     = (- (1 / 2 * (1 / 2) powr (1 / 3)), 0, 0)"
proof -
  have ne: "(1 / 2 :: real) powr (1 / 3) \<noteq> 0" by simp
  have s: "tp_position (fst (generate NeutronTrack_new (sconst 0)) ! 0) = Vec (0, 0, 0)"
    "tp_position (fst (generate NeutronTrack_new (sconst (1 / 2))) ! 0)
       = Vec (- (1 / 2 * (1 / 2) powr (1 / 3)), 0, 0)"
    by (simp_all add: generate_first_position NeutronTrack_new_length SOURCE_RADIUS_def Let_def)
  have d: "position (neutrons (NeutronSimulation_new 3 (sconst 0)) ! 0) = (0, 0, 0)"
    "position (neutrons (NeutronSimulation_new 3 (sconst (1 / 2))) ! 0)
       = (- (1 / 2 * (1 / 2) powr (1 / 3)), 0, 0)"
    by (simp_all add: NeutronSimulation_new_def Let_def split_beta init_slot_def init_def
        getFloat_def source_radius_def randomDirection_def)
  show ?thesis using s d ne by simp
qed

text \<open>
  C3 as amended: of the three generators only the fractal terrain synthesizer supports
  explicit seeding. Its constructor takes a seed, \<open>InitGauss\<close> sets the generator to the
  stream of that seed, and \<open>generateTerrain\<close> does not depend on the state the generator had
  before the call. The static-mode and the dynamic-mode generator have no seed parameter;
  their output is a function of the stream of an engine seeded from \<open>std::random_device\<close>.
\<close>

theorem terrain_seeded:
  "ft_gauss (InitGauss normal_stream seed t) = normal_stream seed \<and>
   generateTerrain normal_stream (t\<lparr>ft_gauss := g\<rparr>) = generateTerrain normal_stream (t\<lparr>ft_gauss := g'\<rparr>)"
  by (simp add: generateTerrain_def InitGauss_def Let_def split_beta)

text \<open>The generated terrain is the same from two different states of the generator.\<close>

theorem terrain_seeded_witness:
  "generateTerrain example_stream (example_terrain 0 1)
     = generateTerrain example_stream ((example_terrain 0 1)\<lparr>ft_gauss := sconst 7\<rparr>)"
  using terrain_seeded [of example_stream 42 "example_terrain 0 1" "sconst 0" "sconst 7"]
  by (simp add: example_terrain_def)

end
